theory Spec2Isabelle
  imports Main
begin

section \<open>Object references, errors and Python list indexing\<close>

text \<open>
  Python objects are compared by identity here (neither \<^verbatim>\<open>GridPoint\<close>,
  \<^verbatim>\<open>GridObject\<close> nor \<^verbatim>\<open>GridWorld\<close> defines \<^verbatim>\<open>__eq__\<close>), so an
  object is modelled by its address and the objects themselves live in a heap.
\<close>

type_synonym cell_ref = nat
type_synonym obj_ref = nat
type_synonym world_ref = nat

datatype error = IndexError | ValueError | KeyError | AttributeError

text \<open>\<^verbatim>\<open>xs[i]\<close> of a Python list: a negative index counts from the end, an index out
  of range raises \<^verbatim>\<open>IndexError\<close>.\<close>

definition py_index :: "'a list \<Rightarrow> int \<Rightarrow> error + 'a" where
  "py_index xs i =
     (if 0 \<le> i \<and> i < int (length xs) then Inr (xs ! nat i)
      else if i < 0 \<and> - int (length xs) \<le> i then Inr (xs ! nat (int (length xs) + i))
      else Inl IndexError)"

section \<open>GridPoint (gridworld.py)\<close>

record GridPoint =
  gp_x :: int
  gp_y :: int
  label :: "string option"
  maxOccupants :: int
  occupants :: "obj_ref list"
  parent :: world_ref
  neighbours :: "cell_ref option list"

type_synonym heap = "cell_ref \<Rightarrow> GridPoint"

text \<open>\<^verbatim>\<open>GridPoint.__init__\<close>: the \<^verbatim>\<open>occupants\<close> argument is ignored by the source,
  the neighbour list is \<^verbatim>\<open>[N,E,S,W]\<close>.\<close>

definition GridPoint_init ::
  "world_ref \<Rightarrow> int \<Rightarrow> int \<Rightarrow> int \<Rightarrow> 'o \<Rightarrow> string option \<Rightarrow>
   cell_ref option \<Rightarrow> cell_ref option \<Rightarrow> cell_ref option \<Rightarrow> cell_ref option \<Rightarrow> GridPoint" where
  "GridPoint_init parent' x y max_occupants occupants' label' N S E W =
     \<lparr>gp_x = x, gp_y = y, label = label', maxOccupants = max_occupants, occupants = [],
      parent = parent', neighbours = [N, E, S, W]\<rparr>"

definition occupied :: "GridPoint \<Rightarrow> bool" where
  "occupied self = (int (length (occupants self)) \<ge> maxOccupants self)"

definition capacity :: "GridPoint \<Rightarrow> int" where
  "capacity self = maxOccupants self"

text \<open>\<^verbatim>\<open>addNeighbour(self, neighbour, direction)\<close>. The last test is the list
  assignment itself, which raises \<^verbatim>\<open>IndexError\<close> beyond the end of the list.\<close>

definition addNeighbour :: "GridPoint \<Rightarrow> cell_ref \<Rightarrow> int \<Rightarrow> error + GridPoint" where
  "addNeighbour self neighbour direction =
     (if direction > 3 \<or> direction < 0 then Inl IndexError
      else if length (neighbours self) < 3 then Inl ValueError
      else if nat direction < length (neighbours self)
        then Inr (self\<lparr>neighbours := (neighbours self)[nat direction := Some neighbour]\<rparr>)
      else Inl IndexError)"

text \<open>\<^verbatim>\<open>placeOccupant(self, parent, occupant)\<close> returns the cell after the call and
  the boolean result.\<close>

definition placeOccupant :: "GridPoint \<Rightarrow> world_ref \<Rightarrow> obj_ref \<Rightarrow> GridPoint \<times> bool" where
  "placeOccupant self parent' occupant =
     (if parent' \<noteq> parent self \<or> occupied self then (self, False)
      else (self\<lparr>occupants := occupants self @ [occupant]\<rparr>, True))"

text \<open>\<^verbatim>\<open>removeOccupant(self, parent, occupant)\<close>: the source has no statement that
  changes the occupant list, on either branch.\<close>

definition removeOccupant :: "GridPoint \<Rightarrow> world_ref \<Rightarrow> obj_ref \<Rightarrow> GridPoint \<times> obj_ref option" where
  "removeOccupant self parent' occupant =
     (if parent' \<noteq> parent self \<or> occupant \<notin> set (occupants self) then (self, None)
      else (self, Some occupant))"

text \<open>\<^verbatim>\<open>occupy(self, occupant, origin)\<close> returns the cell after the call and whether
  the result is \<^verbatim>\<open>self\<close> (True) or \<^verbatim>\<open>None\<close> (False).\<close>

definition occupy :: "GridPoint \<Rightarrow> obj_ref \<Rightarrow> int \<times> int \<Rightarrow> GridPoint \<times> bool" where
  "occupy self occupant origin =
     (if \<bar>fst origin - gp_x self\<bar> > 1 \<or> \<bar>snd origin - gp_y self\<bar> > 1 then (self, False)
      else if int (length (occupants self)) > maxOccupants self then (self, False)
      else (self\<lparr>occupants := occupants self @ [occupant]\<rparr>, True))"

text \<open>\<^verbatim>\<open>canGo(self, direction)\<close> reads the neighbour through the heap.\<close>

definition canGo :: "heap \<Rightarrow> cell_ref \<Rightarrow> int \<Rightarrow> error + bool" where
  "canGo hp self direction =
     (case py_index (neighbours (hp self)) direction of
        Inl e \<Rightarrow> Inl e
      | Inr None \<Rightarrow> Inr False
      | Inr (Some n) \<Rightarrow> if occupied (hp n) then Inr False else Inr True)"

text \<open>\<^verbatim>\<open>vacate(self, occupant, direction=None)\<close> on the heap: the result is the heap
  after the call and the returned cell (\<^verbatim>\<open>None\<close>, \<^verbatim>\<open>self\<close> or the neighbour).
  \<^verbatim>\<open>list.remove\<close> deletes the first occurrence. The occupant is removed from
  \<^verbatim>\<open>self\<close> before the neighbour's \<^verbatim>\<open>occupy\<close> runs, and the neighbour is read
  from the heap after that removal (it may be \<^verbatim>\<open>self\<close>). In the branch for an
  occupant that is not in the list, the second \<^verbatim>\<open>print\<close> reads
  \<^verbatim>\<open>occupant.objectName\<close>: \<open>named r\<close> tells whether the object at address \<open>r\<close>
  has that attribute (every \<^verbatim>\<open>GridObject\<close> has), and reading it on an object
  without it raises \<^verbatim>\<open>AttributeError\<close>.\<close>

definition vacate ::
  "(obj_ref \<Rightarrow> bool) \<Rightarrow> heap \<Rightarrow> cell_ref \<Rightarrow> obj_ref \<Rightarrow> int option \<Rightarrow>
   error + (heap \<times> cell_ref option)" where
  "vacate named hp self occupant direction =
     (if occupant \<notin> set (occupants (hp self))
      then (if named occupant then Inr (hp, None) else Inl AttributeError)
      else case direction of
        None \<Rightarrow>
          Inr (hp(self := (hp self)\<lparr>occupants := remove1 occupant (occupants (hp self))\<rparr>), None)
      | Some d \<Rightarrow>
          (case py_index (neighbours (hp self)) d of
             Inl e \<Rightarrow> Inl e
           | Inr None \<Rightarrow> Inr (hp, Some self)
           | Inr (Some n) \<Rightarrow>
               if occupied (hp n) then Inr (hp, Some self)
               else
                 let hp1 = hp(self := (hp self)\<lparr>occupants := remove1 occupant (occupants (hp self))\<rparr>);
                     res = occupy (hp1 n) occupant (gp_x (hp1 self), gp_y (hp1 self));
                     hp2 = hp1(n := fst res)
                 in if \<not> snd res then Inr (hp2, Some self) else Inr (hp2, Some n)))"

section \<open>GridObject, Action and GridAgent (gridagents.py)\<close>

record Action =
  agent :: obj_ref
  actionCode :: int
  actionDirection :: int
  actedUpon :: "obj_ref option"
  act_x :: int
  act_y :: int

text \<open>The attributes of an agent that the world protocol reads or writes. The
  exploration fields (\<^verbatim>\<open>owned\<close>, \<^verbatim>\<open>_map\<close>, \<^verbatim>\<open>_frontier\<close>, \<^verbatim>\<open>_backtrack\<close>) are
  only touched by the unfinished exploration stubs and are left out.
  \<^verbatim>\<open>currentAction\<close> is \<open>None\<close> while the attribute does not exist.\<close>

record GridAgent =
  objectName :: string
  objectID :: string
  static :: bool
  obj_x :: int
  obj_y :: int
  world :: "world_ref option"
  currentAction :: "Action option"

text \<open>An attribute assignment \<^verbatim>\<open>self.name = value\<close> is a value of type \<open>attr\<close>:
  \<open>attr_name\<close> is the Python attribute name the guards of \<^verbatim>\<open>__setattr__\<close> look
  at, \<open>object_setattr\<close> is \<^verbatim>\<open>object.__setattr__\<close>, the store without a guard.\<close>

datatype attr =
    Attr_objectName string
  | Attr_objectID string
  | Attr_static bool
  | Attr_x int
  | Attr_y int
  | Attr_world "world_ref option"
  | Attr_currentAction Action

fun attr_name :: "attr \<Rightarrow> string" where
  "attr_name (Attr_objectName v) = ''_objectName''"
| "attr_name (Attr_objectID v) = ''_objectID''"
| "attr_name (Attr_static v) = ''_static''"
| "attr_name (Attr_x v) = ''x''"
| "attr_name (Attr_y v) = ''y''"
| "attr_name (Attr_world v) = ''_world''"
| "attr_name (Attr_currentAction v) = ''_currentAction''"

fun object_setattr :: "GridAgent \<Rightarrow> attr \<Rightarrow> GridAgent" where
  "object_setattr self (Attr_objectName v) = self\<lparr>objectName := v\<rparr>"
| "object_setattr self (Attr_objectID v) = self\<lparr>objectID := v\<rparr>"
| "object_setattr self (Attr_static v) = self\<lparr>static := v\<rparr>"
| "object_setattr self (Attr_x v) = self\<lparr>obj_x := v\<rparr>"
| "object_setattr self (Attr_y v) = self\<lparr>obj_y := v\<rparr>"
| "object_setattr self (Attr_world v) = self\<lparr>world := v\<rparr>"
| "object_setattr self (Attr_currentAction v) = self\<lparr>currentAction := Some v\<rparr>"

text \<open>\<^verbatim>\<open>GridObject.__setattr__\<close> and \<^verbatim>\<open>GridAgent.__setattr__\<close>.\<close>

definition GridObject_setattr :: "GridAgent \<Rightarrow> attr \<Rightarrow> GridAgent" where
  "GridObject_setattr self a =
     (if attr_name a \<notin> set [''_objectName'', ''_objectID'', ''_world'', ''_static'']
      then object_setattr self a else self)"

definition GridAgent_setattr :: "GridAgent \<Rightarrow> attr \<Rightarrow> GridAgent" where
  "GridAgent_setattr self a =
     (if attr_name a \<noteq> ''_currentAction'' then GridObject_setattr self a else self)"

text \<open>\<^verbatim>\<open>Action.__init__(self, agent, code, target, direction)\<close>: the agent is given by
  its address and its state, from which the position is copied.\<close>

definition Action_init :: "obj_ref \<Rightarrow> GridAgent \<Rightarrow> int \<Rightarrow> obj_ref option \<Rightarrow> int \<Rightarrow> Action" where
  "Action_init agent_ref agent_obj code target direction =
     \<lparr>agent = agent_ref, actionCode = code, actionDirection = direction, actedUpon = target,
      act_x = obj_x agent_obj, act_y = obj_y agent_obj\<rparr>"

text \<open>\<^verbatim>\<open>GridObject.__init__\<close>: name, identifier, static flag and world are stored with
  \<^verbatim>\<open>object.__setattr__\<close>; \<open>uuid\<close> stands for \<^verbatim>\<open>uuid.uuid4().hex\<close>.\<close>

definition GridObject_init ::
  "string \<Rightarrow> string \<Rightarrow> string option \<Rightarrow> world_ref option \<Rightarrow> int \<Rightarrow> int \<Rightarrow> GridAgent" where
  "GridObject_init uuid name obj_id world' x y =
     \<lparr>objectName = name, objectID = (case obj_id of None \<Rightarrow> uuid | Some i \<Rightarrow> i),
      static = False, obj_x = x, obj_y = y, world = world', currentAction = None\<rparr>"

text \<open>\<^verbatim>\<open>GridAgent.__init__\<close>: the name passed on is the literal \<^verbatim>\<open>"agent"\<close>, and the
  assignment \<^verbatim>\<open>self._currentAction = Action(self, -1, None, 0)\<close> goes through
  \<^verbatim>\<open>GridAgent.__setattr__\<close>.\<close>

definition GridAgent_init ::
  "string \<Rightarrow> obj_ref \<Rightarrow> string \<Rightarrow> string option \<Rightarrow> world_ref option \<Rightarrow> int \<Rightarrow> int \<Rightarrow> GridAgent" where
  "GridAgent_init uuid self_ref name obj_id world' x y =
     (let self = GridObject_init uuid ''agent'' obj_id world' x y
      in GridAgent_setattr self (Attr_currentAction (Action_init self_ref self (- 1) None 0)))"

text \<open>\<^verbatim>\<open>embed\<close> and \<^verbatim>\<open>place\<close> assign with plain attribute syntax, that is through
  \<^verbatim>\<open>__setattr__\<close>.\<close>

definition embed :: "GridAgent \<Rightarrow> world_ref option \<Rightarrow> GridAgent" where
  "embed self world' = GridAgent_setattr self (Attr_world world')"

definition place :: "GridAgent \<Rightarrow> world_ref option \<Rightarrow> int \<Rightarrow> int \<Rightarrow> GridAgent" where
  "place self world' x y =
     (let self1 = (if world self = None then GridAgent_setattr self (Attr_world world') else self)
      in if world self1 = world'
         then GridAgent_setattr (GridAgent_setattr self1 (Attr_x x)) (Attr_y y)
         else self1)"

text \<open>\<^verbatim>\<open>actionResult(self, result)\<close>: the observation is a cell of the heap or
  \<^verbatim>\<open>None\<close>; reading \<^verbatim>\<open>self._currentAction\<close> before it exists raises
  \<^verbatim>\<open>AttributeError\<close>, a Move that observes \<^verbatim>\<open>None\<close> raises \<^verbatim>\<open>ValueError\<close>.\<close>

definition actionResult :: "heap \<Rightarrow> GridAgent \<Rightarrow> cell_ref option \<Rightarrow> error + GridAgent" where
  "actionResult hp self result =
     (case currentAction self of
        None \<Rightarrow> Inl AttributeError
      | Some a \<Rightarrow>
          if actionCode a \<ge> 0 then
            (if actionCode a = 0 then
               (case result of
                  None \<Rightarrow> Inl ValueError
                | Some r \<Rightarrow>
                    Inr (GridAgent_setattr (GridAgent_setattr self (Attr_x (gp_x (hp r))))
                           (Attr_y (gp_y (hp r)))))
             else Inr self)
          else Inr self)"

text \<open>\<^verbatim>\<open>chooseAction(self, world, x, y, occupants)\<close>: \<open>rnd\<close> is the value of
  \<^verbatim>\<open>round(numpy.random.uniform(-0.49999,3.5))\<close>, \<open>self_ref\<close> the agent's own address.
  The result is the agent after the call and the returned \<^verbatim>\<open>self._currentAction\<close>.\<close>

definition chooseAction ::
  "int \<Rightarrow> obj_ref \<Rightarrow> GridAgent \<Rightarrow> world_ref option \<Rightarrow> int \<Rightarrow> int \<Rightarrow> obj_ref list \<Rightarrow>
   error + (GridAgent \<times> Action)" where
  "chooseAction rnd self_ref self world' x y occs =
     (if world' \<noteq> world self then
        (let self1 = GridObject_setattr self (Attr_currentAction (Action_init self_ref self (- 1) None 0))
         in case currentAction self1 of
              None \<Rightarrow> Inl AttributeError
            | Some a \<Rightarrow> Inr (self1, a))
      else
        (let self1 = GridObject_setattr self (Attr_currentAction (Action_init self_ref self 0 None rnd))
         in case currentAction self1 of
              None \<Rightarrow> Inl AttributeError
            | Some a \<Rightarrow> Inr (self1, a)))"

section \<open>GridWorld (gridworld.py)\<close>

record GridWorld =
  world_id :: world_ref
  w_time :: int
  maxTime :: int
  grid :: "cell_ref list list"
  cells :: heap
  agents :: "string \<rightharpoonup> (int \<times> int \<times> obj_ref)"

text \<open>A sequence of fallible steps stops at the first exception.\<close>

fun mapM :: "('a \<Rightarrow> error + 'b) \<Rightarrow> 'a list \<Rightarrow> error + 'b list" where
  "mapM f [] = Inr []"
| "mapM f (x # xs) =
     (case f x of
        Inl e \<Rightarrow> Inl e
      | Inr y \<Rightarrow> (case mapM f xs of Inl e \<Rightarrow> Inl e | Inr ys \<Rightarrow> Inr (y # ys)))"

fun for_each :: "('i \<Rightarrow> 's \<Rightarrow> error + 's) \<Rightarrow> 'i list \<Rightarrow> 's \<Rightarrow> error + 's" where
  "for_each f [] s = Inr s"
| "for_each f (i # is) s = (case f i s of Inl e \<Rightarrow> Inl e | Inr s' \<Rightarrow> for_each f is s')"

text \<open>One element of the comprehension that creates the cells: the three branches on
  \<^verbatim>\<open>points\<close> and \<^verbatim>\<open>occupants\<close>, a dictionary lookup of a missing key raising
  \<^verbatim>\<open>KeyError\<close>.\<close>

definition new_point ::
  "world_ref \<Rightarrow> (int \<times> int \<rightharpoonup> int) option \<Rightarrow> (int \<times> int \<rightharpoonup> 'o) option \<Rightarrow> int \<Rightarrow> int \<Rightarrow>
   error + GridPoint" where
  "new_point self points occs x y =
     (case points of
        None \<Rightarrow> Inr (GridPoint_init self x y 1 (None :: 'o option) None None None None None)
      | Some pts \<Rightarrow>
          (case pts (x, y) of
             None \<Rightarrow> Inl KeyError
           | Some c \<Rightarrow>
               (case occs of
                  None \<Rightarrow> Inr (GridPoint_init self x y c (None :: 'o option) None None None None None)
                | Some oc \<Rightarrow>
                    (case oc (x, y) of
                       None \<Rightarrow> Inl KeyError
                     | Some v \<Rightarrow> Inr (GridPoint_init self x y c (Some v) None None None None None)))))"

text \<open>A method call \<^verbatim>\<open>c.addNeighbour(n, d)\<close> on the cell at address \<open>c\<close>.\<close>

definition addNeighbour_at :: "heap \<Rightarrow> cell_ref \<Rightarrow> cell_ref \<Rightarrow> int \<Rightarrow> error + heap" where
  "addNeighbour_at hp c n d =
     (case addNeighbour (hp c) n d of Inl e \<Rightarrow> Inl e | Inr c' \<Rightarrow> Inr (hp(c := c')))"

text \<open>The body of the two adjacency loops of \<^verbatim>\<open>GridWorld.__init__\<close> for one
  \<^verbatim>\<open>(row, col)\<close>. The grid is the rectangular list of lists the comprehension built,
  so every index used below is in range.\<close>

definition link_point :: "cell_ref list list \<Rightarrow> nat \<Rightarrow> nat \<Rightarrow> heap \<Rightarrow> error + heap" where
  "link_point g row col hp =
     (case (if row > 0 \<and> capacity (hp (g ! (row - 1) ! col)) > 0
            then addNeighbour_at hp (g ! row ! col) (g ! (row - 1) ! col) 0 else Inr hp) of
        Inl e \<Rightarrow> Inl e
      | Inr hp1 \<Rightarrow>
     (case (if col < length (g ! row) - 1 \<and> capacity (hp1 (g ! row ! (col + 1))) > 0
            then addNeighbour_at hp1 (g ! row ! col) (g ! row ! (col + 1)) 1 else Inr hp1) of
        Inl e \<Rightarrow> Inl e
      | Inr hp2 \<Rightarrow>
     (case (if row < length g - 1 \<and> capacity (hp2 (g ! (row + 1) ! col)) > 0
            then addNeighbour_at hp2 (g ! row ! col) (g ! (row + 1) ! col) 2 else Inr hp2) of
        Inl e \<Rightarrow> Inl e
      | Inr hp3 \<Rightarrow>
        (if col > 0 \<and> capacity (hp3 (g ! row ! (col - 1))) > 0
         then addNeighbour_at hp3 (g ! row ! col) (g ! row ! (col - 1)) 3 else Inr hp3))))"

definition build_adjacency :: "cell_ref list list \<Rightarrow> heap \<Rightarrow> error + heap" where
  "build_adjacency g hp =
     for_each (\<lambda>row. for_each (\<lambda>col. link_point g row col) [0..<length (g ! row)])
       [0..<length g] hp"

text \<open>\<^verbatim>\<open>GridWorld.__init__(self, h, w, max_time, update_interval, points, occupants)\<close>.
  \<open>self\<close> is the address of the new world and \<open>hp\<close> the heap it is created in; the
  cells are allocated in the order the comprehension creates them, row after row, at
  the addresses \<open>0 .. h * w - 1\<close>. \<^verbatim>\<open>range\<close> of a negative number is empty, as
  \<open>nat\<close> of it is 0. The pacing interval plays no part in the model.\<close>

definition GridWorld_init ::
  "heap \<Rightarrow> world_ref \<Rightarrow> int \<Rightarrow> int \<Rightarrow> int \<Rightarrow> (int \<times> int \<rightharpoonup> int) option \<Rightarrow>
   (int \<times> int \<rightharpoonup> 'o) option \<Rightarrow> error + GridWorld" where
  "GridWorld_init hp self h w max_time points occs =
     (case mapM (\<lambda>y. mapM (\<lambda>x. new_point self points occs (int x) (int y)) [0..<nat w])
             [0..<nat h] of
        Inl e \<Rightarrow> Inl e
      | Inr pts \<Rightarrow>
          (let g = map (\<lambda>row. map (\<lambda>col. row * nat w + col) [0..<nat w]) [0..<nat h];
               hp1 = (\<lambda>r. if r < nat h * nat w then pts ! (r div nat w) ! (r mod nat w) else hp r)
           in case build_adjacency g hp1 of
                Inl e \<Rightarrow> Inl e
              | Inr hp2 \<Rightarrow>
                  Inr \<lparr>world_id = self, w_time = 0, maxTime = max_time, grid = g, cells = hp2,
                       agents = Map.empty\<rparr>))"

text \<open>\<^verbatim>\<open>GridWorld.placeOccupant(self, occupant, row, col, isAgent)\<close>; \<open>objs\<close> is the
  heap of the agents, read for \<^verbatim>\<open>occupant.objectID\<close>.\<close>

definition GridWorld_placeOccupant ::
  "(obj_ref \<Rightarrow> GridAgent) \<Rightarrow> GridWorld \<Rightarrow> obj_ref \<Rightarrow> int \<Rightarrow> int \<Rightarrow> bool \<Rightarrow>
   error + (GridWorld \<times> bool)" where
  "GridWorld_placeOccupant objs W occupant row col isAgent =
     (let W1 = (if isAgent
                then W\<lparr>agents := (agents W)(objectID (objs occupant) \<mapsto> (col, row, occupant))\<rparr>
                else W)
      in case py_index (grid W1) row of
           Inl e \<Rightarrow> Inl e
         | Inr r \<Rightarrow>
             (case py_index r col of
                Inl e \<Rightarrow> Inl e
              | Inr c \<Rightarrow>
                  (let res = placeOccupant (cells W1 c) (world_id W1) occupant
                   in Inr (W1\<lparr>cells := (cells W1)(c := fst res)\<rparr>, snd res))))"

text \<open>The bounds test of \<^verbatim>\<open>_applyAction\<close>, with Python's left-to-right evaluation of
  \<^verbatim>\<open>or\<close>: \<^verbatim>\<open>len(self._grid[0])\<close> is only evaluated when the first three tests
  are false.\<close>

definition out_of_bounds :: "GridWorld \<Rightarrow> int \<Rightarrow> int \<Rightarrow> error + bool" where
  "out_of_bounds W destX destY =
     (if destX < 0 \<or> destY < 0 \<or> destX \<ge> int (length (grid W)) then Inr True
      else case grid W of
             [] \<Rightarrow> Inl IndexError
           | r0 # rs \<Rightarrow> Inr (destY \<ge> int (length r0)))"

text \<open>\<^verbatim>\<open>self._grid[y][x]\<close>.\<close>

definition grid_at :: "GridWorld \<Rightarrow> int \<Rightarrow> int \<Rightarrow> error + cell_ref" where
  "grid_at W y x =
     (case py_index (grid W) y of Inl e \<Rightarrow> Inl e | Inr r \<Rightarrow> py_index r x)"

text \<open>The destination of a Move, as the four tests of \<^verbatim>\<open>_applyAction\<close> compute it.\<close>

definition destination :: "Action \<Rightarrow> int \<times> int" where
  "destination action =
     (let destX = act_x action;
          destY = act_y action;
          destX = (if actionDirection action = 3 then destX - 1 else destX);
          destY = (if actionDirection action = 2 then destY + 1 else destY);
          destX = (if actionDirection action = 1 then destX + 1 else destX);
          destY = (if actionDirection action = 0 then destY - 1 else destY)
      in (destX, destY))"

text \<open>\<^verbatim>\<open>_applyAction(self, action)\<close>: the result is the world after the call and the
  returned cell. \<^verbatim>\<open>newSquare.x\<close> on \<^verbatim>\<open>None\<close> raises \<^verbatim>\<open>AttributeError\<close>, the roster
  lookup of an unknown identifier \<^verbatim>\<open>KeyError\<close>. An action code other than -1 and 0
  falls off the end of the function. Every object of \<open>objs\<close> is a \<^verbatim>\<open>GridAgent\<close>
  and so has an \<^verbatim>\<open>objectName\<close>: the \<^verbatim>\<open>print\<close> of the Move branch, which reads
  \<^verbatim>\<open>action.agent.objectName\<close>, raises nothing, and \<^verbatim>\<open>vacate\<close> is called with
  every object named.\<close>

definition applyAction ::
  "(obj_ref \<Rightarrow> GridAgent) \<Rightarrow> GridWorld \<Rightarrow> Action \<Rightarrow> error + (GridWorld \<times> cell_ref option)" where
  "applyAction objs W action =
     (if actionCode action = - 1 then Inr (W, None)
      else if actionCode action = 0 then
        (case out_of_bounds W (fst (destination action)) (snd (destination action)) of
           Inl e \<Rightarrow> Inl e
         | Inr True \<Rightarrow>
             (case grid_at W (act_y action) (act_x action) of
                Inl e \<Rightarrow> Inl e
              | Inr c \<Rightarrow> Inr (W, Some c))
         | Inr False \<Rightarrow>
             (case grid_at W (act_y action) (act_x action) of
                Inl e \<Rightarrow> Inl e
              | Inr c \<Rightarrow>
                  (case vacate (\<lambda>r. True) (cells W) c (agent action)
                          (Some (actionDirection action)) of
                     Inl e \<Rightarrow> Inl e
                   | Inr (hp', None) \<Rightarrow> Inl AttributeError
                   | Inr (hp', Some newSquare) \<Rightarrow>
                       (case agents W (objectID (objs (agent action))) of
                          None \<Rightarrow> Inl KeyError
                        | Some entry \<Rightarrow>
                            Inr (W\<lparr>cells := hp',
                                   agents := (agents W)(objectID (objs (agent action)) \<mapsto>
                                     (gp_x (hp' newSquare), gp_y (hp' newSquare), snd (snd entry)))\<rparr>,
                                 Some newSquare)))))
      else Inr (W, None))"

text \<open>Any sequence of calls a driver makes on a world between two ticks: placements
  and resolved actions.\<close>

datatype world_call = PlaceOccupant obj_ref int int bool | ApplyAction Action

fun world_step :: "(obj_ref \<Rightarrow> GridAgent) \<Rightarrow> GridWorld \<Rightarrow> world_call \<Rightarrow> error + GridWorld" where
  "world_step objs W (PlaceOccupant occupant row col isAgent) =
     (case GridWorld_placeOccupant objs W occupant row col isAgent of
        Inl e \<Rightarrow> Inl e | Inr res \<Rightarrow> Inr (fst res))"
| "world_step objs W (ApplyAction action) =
     (case applyAction objs W action of Inl e \<Rightarrow> Inl e | Inr res \<Rightarrow> Inr (fst res))"

fun world_run :: "(obj_ref \<Rightarrow> GridAgent) \<Rightarrow> GridWorld \<Rightarrow> world_call list \<Rightarrow> error + GridWorld" where
  "world_run objs W [] = Inr W"
| "world_run objs W (c # cs) =
     (case world_step objs W c of Inl e \<Rightarrow> Inl e | Inr W' \<Rightarrow> world_run objs W' cs)"

text \<open>Any sequence of \<^verbatim>\<open>embed\<close> and \<^verbatim>\<open>place\<close> calls on an agent.\<close>

datatype agent_call = Embed "world_ref option" | Place "world_ref option" int int

fun agent_step :: "GridAgent \<Rightarrow> agent_call \<Rightarrow> GridAgent" where
  "agent_step self (Embed world') = embed self world'"
| "agent_step self (Place world' x y) = place self world' x y"

section \<open>Auxiliary definitions for the proofs about the grid\<close>

text \<open>The neighbour list the adjacency loops leave in the cell at \<open>(row, col)\<close>,
  the heap with one neighbour list replaced, the grid of addresses of an \<open>H\<close> by
  \<open>Wd\<close> world, and the heap after the loop body has run for the cells in \<open>D\<close>.\<close>

definition expected_neighbours :: "cell_ref list list \<Rightarrow> (cell_ref \<Rightarrow> int) \<Rightarrow> nat \<Rightarrow> nat \<Rightarrow> cell_ref option list" where
  "expected_neighbours g cap row col =
     [if row > 0 \<and> cap (g ! (row - 1) ! col) > 0 then Some (g ! (row - 1) ! col) else None,
      if col < length (g ! row) - 1 \<and> cap (g ! row ! (col + 1)) > 0 then Some (g ! row ! (col + 1)) else None,
      if row < length g - 1 \<and> cap (g ! (row + 1) ! col) > 0 then Some (g ! (row + 1) ! col) else None,
      if col > 0 \<and> cap (g ! row ! (col - 1)) > 0 then Some (g ! row ! (col - 1)) else None]"

definition set_neighbours :: "heap \<Rightarrow> cell_ref \<Rightarrow> cell_ref option list \<Rightarrow> heap" where
  "set_neighbours hp c nbs = hp(c := (hp c)\<lparr>neighbours := nbs\<rparr>)"

definition grid_refs :: "nat \<Rightarrow> nat \<Rightarrow> cell_ref list list" where
  "grid_refs H Wd = map (\<lambda>row. map (\<lambda>col. row * Wd + col) [0..<Wd]) [0..<H]"

definition linked_heap :: "nat \<Rightarrow> nat \<Rightarrow> heap \<Rightarrow> (nat \<times> nat) set \<Rightarrow> heap" where
  "linked_heap H Wd hpi D =
     (\<lambda>r. if r < H * Wd \<and> (r div Wd, r mod Wd) \<in> D
          then (hpi r)\<lparr>neighbours :=
                 expected_neighbours (grid_refs H Wd) (\<lambda>r. capacity (hpi r)) (r div Wd) (r mod Wd)\<rparr>
          else hpi r)"

text \<open>Two heaps whose cells differ at most in their occupant lists.\<close>

definition same_layout :: "heap \<Rightarrow> heap \<Rightarrow> bool" where
  "same_layout hp hp' =
     (\<forall>r. gp_x (hp' r) = gp_x (hp r) \<and> gp_y (hp' r) = gp_y (hp r)
        \<and> maxOccupants (hp' r) = maxOccupants (hp r) \<and> parent (hp' r) = parent (hp r)
        \<and> neighbours (hp' r) = neighbours (hp r))"

section \<open>Properties of the cell operations\<close>

lemma py_index_in_range:
  "0 \<le> i \<Longrightarrow> nat i < length xs \<Longrightarrow> py_index xs i = Inr (xs ! nat i)"
  by (simp add: py_index_def)

lemma removeOccupant_unchanged: "fst (removeOccupant self p ob) = self"
  by (simp add: removeOccupant_def)

lemma embed_world: "world (embed self w) = world self"
  by (simp add: embed_def GridAgent_setattr_def GridObject_setattr_def)

lemma place_world: "world (place self w x y) = world self"
  by (simp add: place_def GridAgent_setattr_def GridObject_setattr_def Let_def)

lemma agent_step_world: "world (agent_step self c) = world self"
  by (cases c) (simp_all add: embed_world place_world)

text \<open>What the cell operations do on the inputs where they behave as intended: the
  checks of \<^verbatim>\<open>addNeighbour\<close>, the result of \<^verbatim>\<open>removeOccupant\<close>, \<^verbatim>\<open>occupy\<close>
  on a cell below capacity, the capacity invariant under \<^verbatim>\<open>placeOccupant\<close> and
  \<^verbatim>\<open>vacate\<close>, and a move into an adjacent neighbour.\<close>

lemma addNeighbour_invalid_direction:
  "direction < 0 \<or> 3 < direction \<Longrightarrow> addNeighbour self n direction = Inl IndexError"
  by (auto simp: addNeighbour_def)

lemma addNeighbour_four_slots:
  "length (neighbours self) = 4 \<Longrightarrow> 0 \<le> direction \<Longrightarrow> direction \<le> 3 \<Longrightarrow>
   addNeighbour self n direction =
     Inr (self\<lparr>neighbours := (neighbours self)[nat direction := Some n]\<rparr>)"
  by (auto simp: addNeighbour_def)

lemma addNeighbour_too_short:
  "length (neighbours self) < 3 \<Longrightarrow> 0 \<le> direction \<Longrightarrow> direction \<le> 3 \<Longrightarrow>
   addNeighbour self n direction = Inl ValueError"
  by (auto simp: addNeighbour_def)

lemma removeOccupant_result:
  "snd (removeOccupant self p ob) =
     (if p = parent self \<and> ob \<in> set (occupants self) then Some ob else None)"
  by (simp add: removeOccupant_def)

lemma occupy_not_adjacent:
  "1 < \<bar>fst origin - gp_x self\<bar> \<or> 1 < \<bar>snd origin - gp_y self\<bar> \<Longrightarrow>
   occupy self ob origin = (self, False)"
  by (auto simp: occupy_def)

lemma occupy_below_capacity:
  "\<bar>fst origin - gp_x self\<bar> \<le> 1 \<Longrightarrow> \<bar>snd origin - gp_y self\<bar> \<le> 1 \<Longrightarrow>
   int (length (occupants self)) < maxOccupants self \<Longrightarrow>
   occupy self ob origin = (self\<lparr>occupants := occupants self @ [ob]\<rparr>, True)"
  by (auto simp: occupy_def)

lemma placeOccupant_capacity:
  "int (length (occupants self)) \<le> capacity self \<Longrightarrow>
   int (length (occupants (fst (placeOccupant self p ob)))) \<le> capacity (fst (placeOccupant self p ob))"
  by (auto simp: placeOccupant_def occupied_def capacity_def)

lemma length_remove1_le: "length (remove1 x xs) \<le> length xs"
  by (induction xs) auto

lemma vacate_capacity:
  assumes ok: "\<forall>r. int (length (occupants (hp r))) \<le> capacity (hp r)"
    and v: "vacate named hp c ob d = Inr (hp', res)"
  shows "\<forall>r. int (length (occupants (hp' r))) \<le> capacity (hp' r)"
proof (cases "ob \<in> set (occupants (hp c))")
  case False
  with v ok show ?thesis by (auto simp: vacate_def split: if_splits)
next
  case True
  define hp1 where "hp1 = hp(c := (hp c)\<lparr>occupants := remove1 ob (occupants (hp c))\<rparr>)"
  have ok1: "int (length (occupants (hp1 r))) \<le> capacity (hp1 r)" for r
    using ok length_remove1_le [of ob "occupants (hp c)"]
    by (auto simp: hp1_def capacity_def dest: spec [where x = r])
  have len1: "length (occupants (hp1 r)) \<le> length (occupants (hp r))" for r
    using length_remove1_le [of ob "occupants (hp c)"] by (simp add: hp1_def)
  have cap1: "maxOccupants (hp1 r) = maxOccupants (hp r)" for r
    by (simp add: hp1_def)
  show ?thesis
  proof (cases d)
    case None
    with v True have "hp' = hp1" by (auto simp: vacate_def hp1_def)
    then show ?thesis using ok1 by simp
  next
    case (Some dir)
    from v True Some
    have "hp' = hp \<or> (\<exists>n origin. \<not> occupied (hp n) \<and> hp' = hp1(n := fst (occupy (hp1 n) ob origin)))"
      unfolding vacate_def Let_def hp1_def [symmetric]
      by (auto split: sum.splits option.splits if_splits)
    then show ?thesis
    proof
      assume "hp' = hp"
      then show ?thesis using ok by simp
    next
      assume "\<exists>n origin. \<not> occupied (hp n) \<and> hp' = hp1(n := fst (occupy (hp1 n) ob origin))"
      then obtain n origin where free: "\<not> occupied (hp n)"
        and hp': "hp' = hp1(n := fst (occupy (hp1 n) ob origin))" by blast
      have room: "int (length (occupants (hp1 n))) < maxOccupants (hp1 n)"
        using free len1 [of n] cap1 [of n] by (simp add: occupied_def)
      have "int (length (occupants (fst (occupy (hp1 n) ob origin))))
          \<le> capacity (fst (occupy (hp1 n) ob origin))"
        using room by (auto simp: occupy_def capacity_def)
      then show ?thesis using ok1 by (simp add: hp')
    qed
  qed
qed

lemma vacate_adjacent_atomic:
  assumes present: "ob \<in> set (occupants (hp c))" and once: "distinct (occupants (hp c))"
    and nb: "py_index (neighbours (hp c)) d = Inr (Some n)"
    and other: "n \<noteq> c" and absent: "ob \<notin> set (occupants (hp n))"
    and adjx: "\<bar>gp_x (hp c) - gp_x (hp n)\<bar> \<le> 1" and adjy: "\<bar>gp_y (hp c) - gp_y (hp n)\<bar> \<le> 1"
  shows "\<exists>hp' r. vacate named hp c ob (Some d) = Inr (hp', Some r) \<and> (r = c \<or> r = n)
          \<and> ob \<in> set (occupants (hp' r))
          \<and> (ob \<in> set (occupants (hp' c))) \<noteq> (ob \<in> set (occupants (hp' n)))"
proof (cases "occupied (hp n)")
  case True
  then have "vacate named hp c ob (Some d) = Inr (hp, Some c)"
    using present nb by (simp add: vacate_def)
  then show ?thesis using present absent by auto
next
  case False
  define hp1 where "hp1 = hp(c := (hp c)\<lparr>occupants := remove1 ob (occupants (hp c))\<rparr>)"
  have n1: "hp1 n = hp n" using other by (simp add: hp1_def)
  have c1: "gp_x (hp1 c) = gp_x (hp c)" "gp_y (hp1 c) = gp_y (hp c)"
    by (simp_all add: hp1_def)
  have room: "int (length (occupants (hp n))) < maxOccupants (hp n)"
    using False by (simp add: occupied_def)
  have occ: "occupy (hp1 n) ob (gp_x (hp1 c), gp_y (hp1 c)) =
      ((hp n)\<lparr>occupants := occupants (hp n) @ [ob]\<rparr>, True)"
    unfolding n1 c1 using adjx adjy room by (intro occupy_below_capacity) simp_all
  have "vacate named hp c ob (Some d) =
      Inr (hp1(n := (hp n)\<lparr>occupants := occupants (hp n) @ [ob]\<rparr>), Some n)"
    using present nb False occ by (simp add: vacate_def Let_def hp1_def)
  moreover have "ob \<notin> set (occupants (hp1 c))"
    using once by (simp add: hp1_def)
  ultimately show ?thesis using other by auto
qed

section \<open>The claims about single cells\<close>

text \<open>
  C1 (the code departs from the claim). \<^verbatim>\<open>vacate\<close> removes the occupant from the
  original cell before the neighbour's \<^verbatim>\<open>occupy\<close> has accepted it and does not put
  it back when \<^verbatim>\<open>occupy\<close> refuses. Cell 0 at (0,0) holds occupant 7 and has the
  cell 1 at (3,3), free and of capacity 1, linked as its neighbour in direction 0:
  \<^verbatim>\<open>vacate(7, 0)\<close> returns the original cell, and afterwards occupant 7 is in neither
  of the two cells.
\<close>

theorem vacate_loses_occupant:
  "case vacate (\<lambda>r. True)
               ((\<lambda>r. \<lparr>gp_x = 3, gp_y = 3, label = None, maxOccupants = 1, occupants = [],
                      parent = 1, neighbours = [None, None, None, None]\<rparr>)
                (0 := \<lparr>gp_x = 0, gp_y = 0, label = None, maxOccupants = 1, occupants = [7],
                      parent = 1, neighbours = [Some 1, None, None, None]\<rparr>)) 0 7 (Some 0) of
     Inl e \<Rightarrow> False
   | Inr (hp', res) \<Rightarrow>
       res = Some 0 \<and> 7 \<notin> set (occupants (hp' 0)) \<and> 7 \<notin> set (occupants (hp' 1))"
  by (simp add: vacate_def py_index_def occupy_def occupied_def)

text \<open>
  C2 (the code departs from the claim). \<^verbatim>\<open>occupy\<close> does not preserve the capacity
  invariant: on a cell of capacity 1 that already holds one occupant, entered from the
  adjacent origin (0,1), the invariant holds before the call and fails after it.
\<close>

theorem occupy_breaks_capacity_invariant:
  "int (length (occupants \<lparr>gp_x = 0, gp_y = 0, label = None, maxOccupants = 1, occupants = [7],
      parent = 1, neighbours = [None, None, None, None]\<rparr>))
     \<le> capacity \<lparr>gp_x = 0, gp_y = 0, label = None, maxOccupants = 1, occupants = [7],
      parent = 1, neighbours = [None, None, None, None]\<rparr>
   \<and> int (length (occupants (fst (occupy \<lparr>gp_x = 0, gp_y = 0, label = None, maxOccupants = 1,
      occupants = [7], parent = 1, neighbours = [None, None, None, None]\<rparr> 8 (0, 1)))))
     > capacity (fst (occupy \<lparr>gp_x = 0, gp_y = 0, label = None, maxOccupants = 1,
      occupants = [7], parent = 1, neighbours = [None, None, None, None]\<rparr> 8 (0, 1)))"
  by (simp add: occupy_def capacity_def)

text \<open>
  C3 (the code departs from the claim). \<^verbatim>\<open>removeOccupant\<close> called by the cell's own
  world for an occupant that is present returns the occupant and leaves it in the
  occupant list.
\<close>

theorem removeOccupant_keeps_occupant:
  "removeOccupant \<lparr>gp_x = 0, gp_y = 0, label = None, maxOccupants = 1, occupants = [7],
      parent = 1, neighbours = [None, None, None, None]\<rparr> 1 7
   = (\<lparr>gp_x = 0, gp_y = 0, label = None, maxOccupants = 1, occupants = [7],
      parent = 1, neighbours = [None, None, None, None]\<rparr>, Some 7)"
  by (simp add: removeOccupant_def)

theorem removeOccupant_keeps_occupant_witness:
  "7 \<in> set (occupants (fst (removeOccupant \<lparr>gp_x = 0, gp_y = 0, label = None,
      maxOccupants = 1, occupants = [7], parent = 1,
      neighbours = [None, None, None, None]\<rparr> 1 7)))"
  using removeOccupant_keeps_occupant by simp

text \<open>
  C4 (the code departs from the claim). \<^verbatim>\<open>occupy\<close> on a cell that is exactly at
  capacity, from an adjacent origin, appends the occupant and returns the cell, where
  adding the occupant exceeds the capacity.
\<close>

theorem occupy_full_cell:
  "occupy \<lparr>gp_x = 0, gp_y = 0, label = None, maxOccupants = 1, occupants = [7],
      parent = 1, neighbours = [None, None, None, None]\<rparr> 8 (0, 1)
   = (\<lparr>gp_x = 0, gp_y = 0, label = None, maxOccupants = 1, occupants = [7, 8],
      parent = 1, neighbours = [None, None, None, None]\<rparr>, True)"
  by (simp add: occupy_def)

text \<open>
  C8 (the code departs from the claim). \<^verbatim>\<open>addNeighbour\<close> on a cell whose neighbour
  list has three slots stores the neighbour and raises nothing.
\<close>

theorem addNeighbour_three_slots:
  "addNeighbour \<lparr>gp_x = 0, gp_y = 0, label = None, maxOccupants = 1, occupants = [],
      parent = 1, neighbours = [None, None, None]\<rparr> 5 0
   = Inr \<lparr>gp_x = 0, gp_y = 0, label = None, maxOccupants = 1, occupants = [],
      parent = 1, neighbours = [Some 5, None, None]\<rparr>"
  by (simp add: addNeighbour_def)

text \<open>
  C10, as the claim is written: for every object that is not in the cell's occupant
  list \<^verbatim>\<open>vacate\<close> returns \<^verbatim>\<open>None\<close>. This fails for an object without an
  \<^verbatim>\<open>objectName\<close> attribute: the diagnostic \<^verbatim>\<open>print\<close> of that branch reads the
  attribute and \<^verbatim>\<open>AttributeError\<close> is raised. Object 7, a grid object, is in the
  cell; object 9, which has no \<^verbatim>\<open>objectName\<close>, is not.
\<close>

theorem vacate_unnamed_object_counterexample:
  "vacate (\<lambda>r. r = 7) (\<lambda>r. \<lparr>gp_x = 0, gp_y = 0, label = None, maxOccupants = 1, occupants = [7],
              parent = 1, neighbours = [None, None, None, None]\<rparr>) 0 9 (Some 2) = Inl AttributeError
   \<and> vacate (\<lambda>r. r = 7) (\<lambda>r. \<lparr>gp_x = 0, gp_y = 0, label = None, maxOccupants = 1, occupants = [7],
              parent = 1, neighbours = [None, None, None, None]\<rparr>) 0 9 None = Inl AttributeError"
  by (simp add: vacate_def)

text \<open>
  C10, amended. For an object that has an \<^verbatim>\<open>objectName\<close> (every grid object) and is
  not in the cell's occupant list, \<^verbatim>\<open>vacate\<close> returns \<^verbatim>\<open>None\<close> and leaves the heap
  as it is, whatever the direction argument (absent, or any integer); for an object
  that is in the list and no direction, \<^verbatim>\<open>vacate\<close> removes it and returns
  \<^verbatim>\<open>None\<close> as well. The returned value is the same in both cases.
\<close>

theorem vacate_None_ambiguous:
  "(named occupant \<and> occupant \<notin> set (occupants (hp self)) \<longrightarrow>
      vacate named hp self occupant direction = Inr (hp, None))
   \<and> (occupant \<in> set (occupants (hp self)) \<longrightarrow>
      vacate named hp self occupant None =
        Inr (hp(self := (hp self)\<lparr>occupants := remove1 occupant (occupants (hp self))\<rparr>), None))"
  by (simp add: vacate_def)

theorem vacate_None_ambiguous_witness:
  "vacate (\<lambda>r. r = 7 \<or> r = 8) (\<lambda>r. \<lparr>gp_x = 0, gp_y = 0, label = None, maxOccupants = 1, occupants = [7],
              parent = 1, neighbours = [None, None, None, None]\<rparr>) 0 8 (Some 2)
     = Inr (\<lambda>r. \<lparr>gp_x = 0, gp_y = 0, label = None, maxOccupants = 1, occupants = [7],
              parent = 1, neighbours = [None, None, None, None]\<rparr>, None)
   \<and> snd (projr (vacate (\<lambda>r. r = 7 \<or> r = 8) (\<lambda>r. \<lparr>gp_x = 0, gp_y = 0, label = None, maxOccupants = 1, occupants = [7],
              parent = 1, neighbours = [None, None, None, None]\<rparr>) 0 7 None))
     = None"
  using vacate_None_ambiguous
    [of "\<lambda>r. r = 7 \<or> r = 8" 8 "\<lambda>r. \<lparr>gp_x = 0, gp_y = 0, label = None, maxOccupants = 1, occupants = [7],
              parent = 1, neighbours = [None, None, None, None]\<rparr>" 0 "Some 2"]
    vacate_None_ambiguous
    [of "\<lambda>r. r = 7 \<or> r = 8" 7 "\<lambda>r. \<lparr>gp_x = 0, gp_y = 0, label = None, maxOccupants = 1, occupants = [7],
              parent = 1, neighbours = [None, None, None, None]\<rparr>" 0 None]
  by simp

section \<open>The claims about agents\<close>

text \<open>
  C6. When the world passed to \<^verbatim>\<open>chooseAction\<close> is not the world the agent is
  embedded in, the call raises nothing and returns an action with code -1 (the
  agent's new current action), for every position, occupant list and random draw.
\<close>

theorem chooseAction_foreign_world:
  "world' \<noteq> world self \<Longrightarrow>
   chooseAction rnd self_ref self world' x y occs =
     Inr (self\<lparr>currentAction := Some (Action_init self_ref self (- 1) None 0)\<rparr>,
          Action_init self_ref self (- 1) None 0)
   \<and> actionCode (Action_init self_ref self (- 1) None 0) = - 1"
  by (simp add: chooseAction_def GridObject_setattr_def Action_init_def)

theorem chooseAction_foreign_world_witness:
  "actionCode (snd (projr (chooseAction 2 5 (GridAgent_init ''u'' 5 ''a'' None (Some 1) 3 4)
     (Some 2) 3 4 []))) = - 1"
  using chooseAction_foreign_world
    [of "Some 2" "GridAgent_init ''u'' 5 ''a'' None (Some 1) 3 4" 2 5 3 4 "[]"]
  by (simp add: GridAgent_init_def GridObject_init_def GridAgent_setattr_def)

text \<open>
  C9. The world reference of an agent is the one given to the constructor, and no
  sequence of \<^verbatim>\<open>embed\<close> and \<^verbatim>\<open>place\<close> calls changes it: the attribute guard drops
  every later assignment to it.
\<close>

theorem world_reference_set_once:
  "world (GridAgent_init uuid self_ref name obj_id world' x y) = world'
   \<and> world (foldl agent_step self calls) = world self"
proof
  show "world (GridAgent_init uuid self_ref name obj_id world' x y) = world'"
    by (simp add: GridAgent_init_def GridObject_init_def GridAgent_setattr_def)
  show "world (foldl agent_step self calls) = world self"
    by (induction calls arbitrary: self) (simp_all add: agent_step_world)
qed

section \<open>The construction of the grid\<close>

lemma mapM_Inr:
  "mapM f xs = Inr ys \<Longrightarrow> length ys = length xs \<and> (\<forall>i<length xs. f (xs ! i) = Inr (ys ! i))"
proof (induction xs arbitrary: ys)
  case Nil
  then show ?case by simp
next
  case (Cons x xs)
  from Cons.prems obtain y ys' where fx: "f x = Inr y" and rest: "mapM f xs = Inr ys'" and ys: "ys = y # ys'"
    by (auto split: sum.splits)
  from Cons.IH [OF rest] have len: "length ys' = length xs"
    and nth: "\<forall>i<length xs. f (xs ! i) = Inr (ys' ! i)" by simp_all
  show ?case
  proof (intro conjI allI impI)
    show "length ys = length (x # xs)" using len ys by simp
  next
    fix i assume "i < length (x # xs)"
    then show "f ((x # xs) ! i) = Inr (ys ! i)"
      using fx nth ys by (cases i) simp_all
  qed
qed

lemma new_point_Inr:
  "new_point self points occs x y = Inr p \<Longrightarrow>
   p = \<lparr>gp_x = x, gp_y = y, label = None, maxOccupants = maxOccupants p, occupants = [],
        parent = self, neighbours = [None, None, None, None]\<rparr>"
  by (auto simp: new_point_def GridPoint_init_def split: option.splits)

lemma addNeighbour_at_four:
  "length (neighbours (hp c)) = 4 \<Longrightarrow> d \<in> {0, 1, 2, 3} \<Longrightarrow>
   addNeighbour_at hp c n d = Inr (hp(c := (hp c)\<lparr>neighbours := (neighbours (hp c))[nat d := Some n]\<rparr>))"
  by (auto simp: addNeighbour_at_def addNeighbour_def)

lemma capacity_set_neighbours: "capacity (set_neighbours hp c nbs r) = capacity (hp r)"
  by (simp add: set_neighbours_def capacity_def)

lemma neighbours_set_neighbours: "neighbours (set_neighbours hp c nbs c) = nbs"
  by (simp add: set_neighbours_def)

lemma set_neighbours_twice: "set_neighbours (set_neighbours hp c a) c b = set_neighbours hp c b"
  by (simp add: set_neighbours_def)

lemma link_step:
  assumes "neighbours (hp c) = nbs" and "length nbs = 4" and "d \<in> {0, 1, 2, 3}"
  shows "(if b then addNeighbour_at hp c n d else Inr hp) =
           Inr (set_neighbours hp c (if b then nbs[nat d := Some n] else nbs))"
proof (cases b)
  case True
  then show ?thesis
    using assms addNeighbour_at_four [of hp c d n] by (simp add: set_neighbours_def)
next
  case False
  have "hp(c := (hp c)\<lparr>neighbours := nbs\<rparr>) = hp"
    using assms(1) by (simp add: fun_eq_iff)
  with False show ?thesis by (simp add: set_neighbours_def)
qed

lemma link_point_eq:
  assumes "neighbours (hp (g ! row ! col)) = [None, None, None, None]"
  shows "link_point g row col hp =
     Inr (set_neighbours hp (g ! row ! col) (expected_neighbours g (\<lambda>r. capacity (hp r)) row col))"
proof -
  define c where "c = g ! row ! col"
  define bN where "bN = (row > 0 \<and> capacity (hp (g ! (row - 1) ! col)) > 0)"
  define bE where "bE = (col < length (g ! row) - 1 \<and> capacity (hp (g ! row ! (col + 1))) > 0)"
  define bS where "bS = (row < length g - 1 \<and> capacity (hp (g ! (row + 1) ! col)) > 0)"
  define bW where "bW = (col > 0 \<and> capacity (hp (g ! row ! (col - 1))) > 0)"
  define n1 where "n1 = (if bN then [None, None, None, None][nat 0 := Some (g ! (row - 1) ! col)] else [None, None, None, None])"
  define n2 where "n2 = (if bE then n1[nat 1 := Some (g ! row ! (col + 1))] else n1)"
  define n3 where "n3 = (if bS then n2[nat 2 := Some (g ! (row + 1) ! col)] else n2)"
  define n4 where "n4 = (if bW then n3[nat 3 := Some (g ! row ! (col - 1))] else n3)"
  have l1: "length n1 = 4" by (simp add: n1_def)
  have l2: "length n2 = 4" by (simp add: n2_def l1)
  have l3: "length n3 = 4" by (simp add: n3_def l2)
  have s1: "(if bN then addNeighbour_at hp c (g ! (row - 1) ! col) 0 else Inr hp) = Inr (set_neighbours hp c n1)"
    using link_step [of hp c "[None, None, None, None]" 0 bN] assms by (simp add: c_def n1_def)
  have s2: "(if bE then addNeighbour_at (set_neighbours hp c n1) c (g ! row ! (col + 1)) 1 else Inr (set_neighbours hp c n1))
       = Inr (set_neighbours hp c n2)"
    using link_step [of "set_neighbours hp c n1" c n1 1 bE] l1
    by (simp add: neighbours_set_neighbours set_neighbours_twice n2_def)
  have s3: "(if bS then addNeighbour_at (set_neighbours hp c n2) c (g ! (row + 1) ! col) 2 else Inr (set_neighbours hp c n2))
       = Inr (set_neighbours hp c n3)"
    using link_step [of "set_neighbours hp c n2" c n2 2 bS] l2
    by (simp add: neighbours_set_neighbours set_neighbours_twice n3_def)
  have s4: "(if bW then addNeighbour_at (set_neighbours hp c n3) c (g ! row ! (col - 1)) 3 else Inr (set_neighbours hp c n3))
       = Inr (set_neighbours hp c n4)"
    using link_step [of "set_neighbours hp c n3" c n3 3 bW] l3
    by (simp add: neighbours_set_neighbours set_neighbours_twice n4_def)
  have "link_point g row col hp = Inr (set_neighbours hp c n4)"
    unfolding link_point_def capacity_set_neighbours
    using s1 s2 s3 s4
    by (simp only: c_def [symmetric] bN_def [symmetric] bE_def [symmetric] bS_def [symmetric] bW_def [symmetric] capacity_set_neighbours sum.case)
  moreover have "n4 = expected_neighbours g (\<lambda>r. capacity (hp r)) row col"
    unfolding n4_def n3_def n2_def n1_def expected_neighbours_def
      bN_def [symmetric] bE_def [symmetric] bS_def [symmetric] bW_def [symmetric]
    by (cases bN; cases bE; cases bS; cases bW) simp_all
  ultimately show ?thesis by (simp add: c_def)
qed

lemma grid_refs_nth: "row < H \<Longrightarrow> col < Wd \<Longrightarrow> grid_refs H Wd ! row ! col = row * Wd + col"
  by (simp add: grid_refs_def)

lemma grid_refs_length: "length (grid_refs H Wd) = H"
  by (simp add: grid_refs_def)

lemma grid_refs_row_length: "row < H \<Longrightarrow> length (grid_refs H Wd ! row) = Wd"
  by (simp add: grid_refs_def)

lemma ref_bound: "row < H \<Longrightarrow> col < Wd \<Longrightarrow> row * Wd + col < H * (Wd::nat)"
proof -
  assume a: "row < H" "col < Wd"
  then have "row * Wd + col < row * Wd + Wd" by simp
  also have "\<dots> = Suc row * Wd" by simp
  also have "\<dots> \<le> H * Wd" using a(1) by (intro mult_le_mono1) simp
  finally show ?thesis .
qed

lemma ref_div: "col < Wd \<Longrightarrow> (row * Wd + col) div Wd = (row::nat)"
  by simp

lemma ref_mod: "col < Wd \<Longrightarrow> (row * Wd + col) mod Wd = (col::nat)"
  by simp

lemma capacity_linked_heap: "capacity (linked_heap H Wd hpi D r) = capacity (hpi r)"
  by (simp add: linked_heap_def capacity_def)

lemma linked_heap_at:
  assumes "row < H" and "col < Wd"
  shows "linked_heap H Wd hpi D (row * Wd + col) =
     (if (row, col) \<in> D
      then (hpi (row * Wd + col))\<lparr>neighbours :=
             expected_neighbours (grid_refs H Wd) (\<lambda>r. capacity (hpi r)) row col\<rparr>
      else hpi (row * Wd + col))"
  using assms ref_bound [OF assms] by (simp add: linked_heap_def)

lemma linked_heap_other:
  assumes "r \<noteq> row * Wd + col"
  shows "linked_heap H Wd hpi (insert (row, col) D) r = linked_heap H Wd hpi D r"
proof -
  have "(r div Wd, r mod Wd) \<noteq> (row, col)"
  proof
    assume eq: "(r div Wd, r mod Wd) = (row, col)"
    then have d: "r div Wd = row" and m: "r mod Wd = col" by simp_all
    have "r = r div Wd * Wd + r mod Wd" by simp
    then have "r = row * Wd + col" unfolding d m .
    with assms show False by simp
  qed
  then show ?thesis by (auto simp: linked_heap_def)
qed

lemma linked_heap_step:
  assumes row: "row < H" and col: "col < Wd" and new: "(row, col) \<notin> D"
    and blank: "neighbours (hpi (row * Wd + col)) = [None, None, None, None]"
  shows "link_point (grid_refs H Wd) row col (linked_heap H Wd hpi D) =
           Inr (linked_heap H Wd hpi (insert (row, col) D))"
proof -
  let ?g = "grid_refs H Wd"
  let ?c = "row * Wd + col"
  let ?E = "expected_neighbours ?g (\<lambda>r. capacity (hpi r)) row col"
  have c: "?g ! row ! col = ?c" using row col by (rule grid_refs_nth)
  have old: "linked_heap H Wd hpi D ?c = hpi ?c"
    using linked_heap_at [OF row col, of hpi D] new by simp
  have "neighbours (linked_heap H Wd hpi D (?g ! row ! col)) = [None, None, None, None]"
    unfolding c old by (rule blank)
  from link_point_eq [where hp = "linked_heap H Wd hpi D" and g = ?g and row = row and col = col, OF this]
  have lp: "link_point ?g row col (linked_heap H Wd hpi D) =
     Inr (set_neighbours (linked_heap H Wd hpi D) ?c ?E)"
    unfolding c capacity_linked_heap .
  have "set_neighbours (linked_heap H Wd hpi D) ?c ?E r
        = linked_heap H Wd hpi (insert (row, col) D) r" for r
  proof (cases "r = ?c")
    case True
    have "linked_heap H Wd hpi (insert (row, col) D) ?c = (hpi ?c)\<lparr>neighbours := ?E\<rparr>"
      using linked_heap_at [OF row col, of hpi "insert (row, col) D"] by simp
    then show ?thesis unfolding True set_neighbours_def old by simp
  next
    case False
    then show ?thesis
      using linked_heap_other [OF False, of H hpi D] by (simp add: set_neighbours_def)
  qed
  then have "set_neighbours (linked_heap H Wd hpi D) ?c ?E
        = linked_heap H Wd hpi (insert (row, col) D)" by (rule ext)
  with lp show ?thesis by simp
qed

lemma for_each_closed_form:
  assumes step: "\<And>D i. i \<in> U \<Longrightarrow> i \<notin> D \<Longrightarrow> f i (F D) = Inr (F (insert i D))"
  shows "distinct xs \<Longrightarrow> set xs \<subseteq> U \<Longrightarrow> set xs \<inter> D = {} \<Longrightarrow>
         for_each f xs (F D) = Inr (F (D \<union> set xs))"
proof (induction xs arbitrary: D)
  case Nil
  then show ?case by simp
next
  case (Cons x xs)
  have fx: "f x (F D) = Inr (F (insert x D))"
    using Cons.prems by (intro step) auto
  have "for_each f xs (F (insert x D)) = Inr (F (insert x D \<union> set xs))"
    using Cons.prems by (intro Cons.IH) auto
  then show ?case using fx by simp
qed

lemma link_row:
  assumes row: "row < H" and new: "row \<notin> R"
    and blank: "\<And>col. col < Wd \<Longrightarrow> neighbours (hpi (row * Wd + col)) = [None, None, None, None]"
  shows "for_each (\<lambda>col. link_point (grid_refs H Wd) row col) [0..<Wd]
           (linked_heap H Wd hpi (R \<times> {..<Wd})) =
         Inr (linked_heap H Wd hpi (insert row R \<times> {..<Wd}))"
proof -
  define F where "F = (\<lambda>C. linked_heap H Wd hpi (R \<times> {..<Wd} \<union> {row} \<times> C))"
  have step: "link_point (grid_refs H Wd) row i (F C) = Inr (F (insert i C))"
    if i: "i \<in> {..<Wd}" and iC: "i \<notin> C" for C i
  proof -
    have notin: "(row, i) \<notin> R \<times> {..<Wd} \<union> {row} \<times> C" using new iC by auto
    have iW: "i < Wd" using i by simp
    have ins: "insert (row, i) (R \<times> {..<Wd} \<union> {row} \<times> C) = R \<times> {..<Wd} \<union> {row} \<times> insert i C"
      by auto
    have "link_point (grid_refs H Wd) row i (linked_heap H Wd hpi (R \<times> {..<Wd} \<union> {row} \<times> C)) =
        Inr (linked_heap H Wd hpi (insert (row, i) (R \<times> {..<Wd} \<union> {row} \<times> C)))"
      using row iW notin blank [OF iW] by (rule linked_heap_step)
    then show ?thesis
      unfolding F_def ins .
  qed
  have "for_each (\<lambda>col. link_point (grid_refs H Wd) row col) [0..<Wd] (F {}) =
        Inr (F ({} \<union> set [0..<Wd]))"
    by (rule for_each_closed_form [where U = "{..<Wd}" and F = F and D = "{}"])
       (simp_all add: step subset_iff)
  moreover have "F {} = linked_heap H Wd hpi (R \<times> {..<Wd})" by (simp add: F_def)
  moreover have "F ({} \<union> set [0..<Wd]) = linked_heap H Wd hpi (insert row R \<times> {..<Wd})"
  proof -
    have "R \<times> {..<Wd} \<union> {row} \<times> ({} \<union> set [0..<Wd]) = insert row R \<times> {..<Wd}"
      by auto
    then show ?thesis unfolding F_def by (rule arg_cong)
  qed
  ultimately show ?thesis by (simp only:)
qed

lemma build_adjacency_closed_form:
  assumes blank: "\<And>row col. row < H \<Longrightarrow> col < Wd \<Longrightarrow>
      neighbours (hpi (row * Wd + col)) = [None, None, None, None]"
  shows "build_adjacency (grid_refs H Wd) hpi = Inr (linked_heap H Wd hpi ({..<H} \<times> {..<Wd}))"
proof -
  define F where "F = (\<lambda>R. linked_heap H Wd hpi (R \<times> {..<Wd}))"
  define f where "f = (\<lambda>row. for_each (\<lambda>col. link_point (grid_refs H Wd) row col)
            [0..<length (grid_refs H Wd ! row)])"
  have step: "f i (F R) = Inr (F (insert i R))" if i: "i \<in> {..<H}" and iR: "i \<notin> R" for R i
  proof -
    have iH: "i < H" using i by simp
    show ?thesis
      unfolding f_def F_def grid_refs_row_length [OF iH]
      by (rule link_row [OF iH iR]) (rule blank [OF iH])
  qed
  have "for_each f [0..<H] (F {}) = Inr (F ({} \<union> set [0..<H]))"
    by (rule for_each_closed_form [where U = "{..<H}" and F = F and D = "{}"])
       (simp_all add: step subset_iff)
  moreover have "F {} = hpi"
    by (simp add: F_def linked_heap_def fun_eq_iff)
  moreover have "({} \<union> set [0..<H]) = {..<H}" by auto
  ultimately have "for_each f [0..<H] hpi = Inr (F {..<H})" by (simp only:)
  then show ?thesis unfolding build_adjacency_def grid_refs_length f_def F_def .
qed

lemma expected_neighbours_length: "length (expected_neighbours g cap row col) = 4"
  by (simp add: expected_neighbours_def)

lemma GridWorld_init_fields:
  assumes "GridWorld_init hp self h w max_time points occs = Inr W"
  shows "grid W = grid_refs (nat h) (nat w)" and "world_id W = self" and "agents W = Map.empty"
  using assms
  by (auto simp: GridWorld_init_def grid_refs_def Let_def split: sum.splits)

lemma GridWorld_init_cell:
  assumes init: "GridWorld_init hp self h w max_time points occs = Inr W"
    and row: "row < nat h" and col: "col < nat w"
  shows "cells W (row * nat w + col) =
     \<lparr>gp_x = int col, gp_y = int row, label = None,
      maxOccupants = maxOccupants (cells W (row * nat w + col)), occupants = [], parent = self,
      neighbours = expected_neighbours (grid W) (\<lambda>r. capacity (cells W r)) row col\<rparr>"
proof -
  let ?H = "nat h" and ?Wd = "nat w"
  let ?g = "grid_refs ?H ?Wd"
  from init obtain pts where
    pts: "mapM (\<lambda>y. mapM (\<lambda>x. new_point self points occs (int x) (int y)) [0..<?Wd]) [0..<?H] = Inr pts"
    by (auto simp: GridWorld_init_def split: sum.splits)
  define hpi where "hpi = (\<lambda>r. if r < ?H * ?Wd then pts ! (r div ?Wd) ! (r mod ?Wd) else hp r)"
  from init pts obtain hp2 where
    adj: "build_adjacency ?g hpi = Inr hp2" and W: "cells W = hp2"
    by (auto simp: GridWorld_init_def grid_refs_def hpi_def Let_def split: sum.splits)
  have pt: "new_point self points occs (int c) (int r) = Inr (pts ! r ! c)"
    if r: "r < ?H" and c: "c < ?Wd" for r c
  proof -
    from mapM_Inr [OF pts] r
    have "mapM (\<lambda>x. new_point self points occs (int x) (int r)) [0..<?Wd] = Inr (pts ! r)"
      by simp
    from mapM_Inr [OF this] c show ?thesis by simp
  qed
  have hpi_at: "hpi (r * ?Wd + c) = pts ! r ! c" if r: "r < ?H" and c: "c < ?Wd" for r c
    using ref_bound [OF r c] c by (simp add: hpi_def)
  have shape: "hpi (r * ?Wd + c) =
      \<lparr>gp_x = int c, gp_y = int r, label = None, maxOccupants = maxOccupants (hpi (r * ?Wd + c)),
       occupants = [], parent = self, neighbours = [None, None, None, None]\<rparr>"
    if r: "r < ?H" and c: "c < ?Wd" for r c
    using new_point_Inr [OF pt [OF r c]] hpi_at [OF r c] by simp
  have blank: "neighbours (hpi (r * ?Wd + c)) = [None, None, None, None]"
    if r: "r < ?H" and c: "c < ?Wd" for r c
    using shape [OF r c] by (metis GridPoint.select_convs(7))
  have hp2: "hp2 = linked_heap ?H ?Wd hpi ({..<?H} \<times> {..<?Wd})"
    using build_adjacency_closed_form [of ?H ?Wd hpi] blank adj by simp
  have caps: "(\<lambda>r. capacity (cells W r)) = (\<lambda>r. capacity (hpi r))"
    unfolding W hp2 by (simp add: capacity_linked_heap)
  have g: "grid W = ?g" using init by (rule GridWorld_init_fields)
  have "cells W (row * ?Wd + col) =
      (hpi (row * ?Wd + col))\<lparr>neighbours := expected_neighbours ?g (\<lambda>r. capacity (hpi r)) row col\<rparr>"
    unfolding W hp2 using linked_heap_at [OF row col, of hpi "{..<?H} \<times> {..<?Wd}"] row col by simp
  then have eq: "cells W (row * ?Wd + col) =
      (hpi (row * ?Wd + col))\<lparr>neighbours := expected_neighbours (grid W) (\<lambda>r. capacity (cells W r)) row col\<rparr>"
    unfolding g caps .
  have m: "maxOccupants (cells W (row * ?Wd + col)) = maxOccupants (hpi (row * ?Wd + col))"
    unfolding eq by simp
  show ?thesis
    unfolding m by (subst eq, subst shape [OF row col]) simp
qed

lemma GridWorld_init_neighbours:
  assumes init: "GridWorld_init hp self h w max_time points occs = Inr W"
    and row: "row < nat h" and col: "col < nat w"
  shows "neighbours (cells W (row * nat w + col)) =
     [if 0 < row \<and> 0 < capacity (cells W ((row - 1) * nat w + col))
        then Some ((row - 1) * nat w + col) else None,
      if col < nat w - 1 \<and> 0 < capacity (cells W (row * nat w + (col + 1)))
        then Some (row * nat w + (col + 1)) else None,
      if row < nat h - 1 \<and> 0 < capacity (cells W ((row + 1) * nat w + col))
        then Some ((row + 1) * nat w + col) else None,
      if 0 < col \<and> 0 < capacity (cells W (row * nat w + (col - 1)))
        then Some (row * nat w + (col - 1)) else None]"
proof -
  let ?H = "nat h" and ?Wd = "nat w"
  have g: "grid W = grid_refs ?H ?Wd" using init by (rule GridWorld_init_fields)
  have n: "0 < row \<Longrightarrow> grid_refs ?H ?Wd ! (row - 1) ! col = (row - 1) * ?Wd + col"
    using row col by (intro grid_refs_nth) simp_all
  have e: "col < ?Wd - 1 \<Longrightarrow> grid_refs ?H ?Wd ! row ! (col + 1) = row * ?Wd + (col + 1)"
    using row col by (intro grid_refs_nth) simp_all
  have s: "row < ?H - 1 \<Longrightarrow> grid_refs ?H ?Wd ! (row + 1) ! col = (row + 1) * ?Wd + col"
    using row col by (intro grid_refs_nth) simp_all
  have w: "0 < col \<Longrightarrow> grid_refs ?H ?Wd ! row ! (col - 1) = row * ?Wd + (col - 1)"
    using row col by (intro grid_refs_nth) simp_all
  have "neighbours (cells W (row * ?Wd + col)) =
      expected_neighbours (grid W) (\<lambda>r. capacity (cells W r)) row col"
    by (subst GridWorld_init_cell [OF init row col]) simp
  also have "\<dots> = [if 0 < row \<and> 0 < capacity (cells W ((row - 1) * nat w + col))
        then Some ((row - 1) * nat w + col) else None,
      if col < nat w - 1 \<and> 0 < capacity (cells W (row * nat w + (col + 1)))
        then Some (row * nat w + (col + 1)) else None,
      if row < nat h - 1 \<and> 0 < capacity (cells W ((row + 1) * nat w + col))
        then Some ((row + 1) * nat w + col) else None,
      if 0 < col \<and> 0 < capacity (cells W (row * nat w + (col - 1)))
        then Some (row * nat w + (col - 1)) else None]"
    unfolding expected_neighbours_def g grid_refs_length grid_refs_row_length [OF row]
    using n e s w by (simp cong: conj_cong if_cong)
  finally show ?thesis .
qed

lemma GridWorld_init_Inr:
  assumes pts: "mapM (\<lambda>y. mapM (\<lambda>x. new_point self points occs (int x) (int y)) [0..<nat w])
             [0..<nat h] = Inr pts"
  shows "\<exists>W. GridWorld_init hp self h w max_time points occs = Inr W"
proof -
  let ?H = "nat h" and ?Wd = "nat w"
  define hpi where "hpi = (\<lambda>r. if r < ?H * ?Wd then pts ! (r div ?Wd) ! (r mod ?Wd) else hp r)"
  have pt: "new_point self points occs (int c) (int r) = Inr (pts ! r ! c)"
    if r: "r < ?H" and c: "c < ?Wd" for r c
  proof -
    from mapM_Inr [OF pts] r
    have "mapM (\<lambda>x. new_point self points occs (int x) (int r)) [0..<?Wd] = Inr (pts ! r)"
      by simp
    from mapM_Inr [OF this] c show ?thesis by simp
  qed
  have blank: "neighbours (hpi (r * ?Wd + c)) = [None, None, None, None]"
    if r: "r < ?H" and c: "c < ?Wd" for r c
  proof -
    have "hpi (r * ?Wd + c) = pts ! r ! c"
      using ref_bound [OF r c] c by (simp add: hpi_def)
    then show ?thesis
      using new_point_Inr [OF pt [OF r c]] by (metis GridPoint.select_convs(7))
  qed
  have "build_adjacency (grid_refs ?H ?Wd) hpi =
      Inr (linked_heap ?H ?Wd hpi ({..<?H} \<times> {..<?Wd}))"
    by (rule build_adjacency_closed_form) (rule blank)
  then show ?thesis
    using pts by (simp add: GridWorld_init_def grid_refs_def hpi_def Let_def)
qed

lemma mapM_total:
  "(\<And>x. x \<in> set xs \<Longrightarrow> \<exists>y. f x = Inr y) \<Longrightarrow> \<exists>ys. mapM f xs = Inr ys"
proof (induction xs)
  case Nil
  then show ?case by simp
next
  case (Cons x xs)
  from Cons.prems obtain y where "f x = Inr y" by auto
  moreover from Cons obtain ys where "mapM f xs = Inr ys" by auto
  ultimately show ?case by simp
qed

lemma GridWorld_init_default_points:
  "\<exists>W. GridWorld_init hp self h w max_time None occs = Inr W"
proof -
  have "\<exists>ys. mapM (\<lambda>x. new_point self None occs (int x) (int y)) [0..<nat w] = Inr ys" for y
    by (rule mapM_total) (simp add: new_point_def)
  then have "\<exists>pts. mapM (\<lambda>y. mapM (\<lambda>x. new_point self None occs (int x) (int y)) [0..<nat w])
             [0..<nat h] = Inr pts"
    by (rule mapM_total)
  then show ?thesis using GridWorld_init_Inr by blast
qed

lemma example_points:
  "mapM (\<lambda>y. mapM (\<lambda>x. new_point 1 (Some (map_of [((0, 0), 1), ((1, 0), 0), ((0, 1), 1), ((1, 1), 1)]))
        (None :: (int \<times> int \<rightharpoonup> nat) option) (int x) (int y)) [0..<nat 2]) [0..<nat 2] =
   Inr [[GridPoint_init 1 0 0 1 (None :: nat option) None None None None None,
         GridPoint_init 1 1 0 0 (None :: nat option) None None None None None],
        [GridPoint_init 1 0 1 1 (None :: nat option) None None None None None,
         GridPoint_init 1 1 1 1 (None :: nat option) None None None None None]]"
  by (simp add: new_point_def upt_rec)


lemma GridWorld_init_point:
  assumes init: "GridWorld_init hp self h w max_time points occs = Inr W"
    and row: "row < nat h" and col: "col < nat w"
  shows "\<exists>p. new_point self points occs (int col) (int row) = Inr p
          \<and> maxOccupants (cells W (row * nat w + col)) = maxOccupants p"
proof -
  let ?H = "nat h" and ?Wd = "nat w"
  from init obtain pts where
    pts: "mapM (\<lambda>y. mapM (\<lambda>x. new_point self points occs (int x) (int y)) [0..<?Wd]) [0..<?H] = Inr pts"
    by (auto simp: GridWorld_init_def split: sum.splits)
  define hpi where "hpi = (\<lambda>r. if r < ?H * ?Wd then pts ! (r div ?Wd) ! (r mod ?Wd) else hp r)"
  from init pts obtain hp2 where
    adj: "build_adjacency (grid_refs ?H ?Wd) hpi = Inr hp2" and W: "cells W = hp2"
    by (auto simp: GridWorld_init_def grid_refs_def hpi_def Let_def split: sum.splits)
  from mapM_Inr [OF pts] row
  have "mapM (\<lambda>x. new_point self points occs (int x) (int row)) [0..<?Wd] = Inr (pts ! row)"
    by simp
  from mapM_Inr [OF this] col
  have pt: "new_point self points occs (int col) (int row) = Inr (pts ! row ! col)" by simp
  have hpi_at: "hpi (row * ?Wd + col) = pts ! row ! col"
    using ref_bound [OF row col] col by (simp add: hpi_def)
  have "capacity (hp2 (row * ?Wd + col)) = capacity (hpi (row * ?Wd + col))"
  proof -
    have "\<exists>D. hp2 = linked_heap ?H ?Wd hpi D"
    proof -
      have "neighbours (hpi (r * ?Wd + c)) = [None, None, None, None]"
        if r: "r < ?H" and c: "c < ?Wd" for r c
      proof -
        from mapM_Inr [OF pts] r
        have "mapM (\<lambda>x. new_point self points occs (int x) (int r)) [0..<?Wd] = Inr (pts ! r)"
          by simp
        from mapM_Inr [OF this] c
        have "new_point self points occs (int c) (int r) = Inr (pts ! r ! c)" by simp
        moreover have "hpi (r * ?Wd + c) = pts ! r ! c"
          using ref_bound [OF r c] c by (simp add: hpi_def)
        ultimately show ?thesis
          using new_point_Inr by (metis GridPoint.select_convs(7))
      qed
      from build_adjacency_closed_form [of ?H ?Wd hpi, OF this] adj show ?thesis by auto
    qed
    then show ?thesis using capacity_linked_heap by auto
  qed
  then show ?thesis using pt hpi_at W by (simp add: capacity_def)
qed

section \<open>The claims about the grid\<close>

text \<open>
  C7. In every world that \<^verbatim>\<open>GridWorld.__init__\<close> returns, for every cell of the grid:
  the neighbour list has exactly 4 slots; a slot that holds a neighbour holds a cell of
  capacity greater than 0, so no edge leads into a capacity-0 cell; and when the cell
  itself has capacity greater than 0, the neighbour in direction \<open>d\<close> has this cell in
  the opposite direction \<open>(d + 2) mod 4\<close> (north 0 and south 2, east 1 and west 3).
\<close>

theorem GridWorld_init_adjacency:
  assumes init: "GridWorld_init hp self h w max_time points occs = Inr W"
    and row: "row < length (grid W)" and col: "col < length (grid W ! row)"
  shows "length (neighbours (cells W (grid W ! row ! col))) = 4
    \<and> (\<forall>d<4. \<forall>n. neighbours (cells W (grid W ! row ! col)) ! d = Some n \<longrightarrow>
          0 < capacity (cells W n))
    \<and> (\<forall>d<4. \<forall>n. neighbours (cells W (grid W ! row ! col)) ! d = Some n
              \<and> 0 < capacity (cells W (grid W ! row ! col)) \<longrightarrow>
          neighbours (cells W n) ! ((d + 2) mod 4) = Some (grid W ! row ! col))"
proof -
  let ?H = "nat h" and ?Wd = "nat w"
  have g: "grid W = grid_refs ?H ?Wd" using init by (rule GridWorld_init_fields)
  have r: "row < ?H" using row by (simp add: g grid_refs_length)
  have c: "col < ?Wd" using col r by (simp add: g grid_refs_row_length)
  have ref: "grid W ! row ! col = row * ?Wd + col"
    unfolding g using r c by (rule grid_refs_nth)
  note nb = GridWorld_init_neighbours [OF init]
  have four: "d < 4 \<Longrightarrow> d = 0 \<or> d = 1 \<or> d = 2 \<or> d = 3" for d :: nat by arith
  have len: "length (neighbours (cells W (grid W ! row ! col))) = 4"
    unfolding ref nb [OF r c] by simp
  have edge: "0 < capacity (cells W n)"
    if d: "d < 4" and n: "neighbours (cells W (grid W ! row ! col)) ! d = Some n" for d n
    using four [OF d] n unfolding ref nb [OF r c]
    by (auto split: if_splits)
  have sym: "neighbours (cells W n) ! ((d + 2) mod 4) = Some (grid W ! row ! col)"
    if d: "d < 4" and n: "neighbours (cells W (grid W ! row ! col)) ! d = Some n"
      and cap: "0 < capacity (cells W (grid W ! row ! col))" for d n
  proof -
    consider "d = 0" | "d = 1" | "d = 2" | "d = 3" using four [OF d] by blast
    then show ?thesis
    proof cases
      case 1
      from n have row0: "0 < row" and n_eq: "n = (row - 1) * ?Wd + col"
        unfolding ref nb [OF r c] 1 by (simp_all split: if_splits)
      have r': "row - 1 < ?H" using r by simp
      have rt: "(row - 1 + 1) = row" using row0 by simp
      show ?thesis
        unfolding n_eq nb [OF r' c] ref 1 rt using cap r row0 unfolding ref by simp
    next
      case 2
      from n have col1: "col < ?Wd - 1" and n_eq: "n = row * ?Wd + (col + 1)"
        unfolding ref nb [OF r c] 2 by (simp_all split: if_splits)
      have c': "col + 1 < ?Wd" using col1 by simp
      have rt: "(col + 1 - 1) = col" by simp
      show ?thesis
        unfolding n_eq nb [OF r c'] ref 2 rt using cap unfolding ref by simp
    next
      case 3
      from n have row1: "row < ?H - 1" and n_eq: "n = (row + 1) * ?Wd + col"
        unfolding ref nb [OF r c] 3 by (simp_all split: if_splits)
      have r': "row + 1 < ?H" using row1 by simp
      have rt: "(row + 1 - 1) = row" by simp
      show ?thesis
        unfolding n_eq nb [OF r' c] ref 3 rt using cap unfolding ref by simp
    next
      case 4
      from n have col0: "0 < col" and n_eq: "n = row * ?Wd + (col - 1)"
        unfolding ref nb [OF r c] 4 by (simp_all split: if_splits)
      have c': "col - 1 < ?Wd" using c by simp
      have rt: "(col - 1 + 1) = col" using col0 by simp
      show ?thesis
        unfolding n_eq nb [OF r c'] ref 4 rt using cap c col0 unfolding ref by simp
    qed
  qed
  show ?thesis using len edge sym by blast
qed

theorem GridWorld_init_adjacency_witness:
  "\<exists>W. GridWorld_init (\<lambda>r. GridPoint_init 0 0 0 0 (None :: nat option) None None None None None) 1 2 2 0
          (Some (map_of [((0, 0), 1), ((1, 0), 0), ((0, 1), 1), ((1, 1), 1)]))
          (None :: (int \<times> int \<rightharpoonup> nat) option) = Inr W
      \<and> grid W = [[0, 1], [2, 3]]
      \<and> capacity (cells W 1) = 0
      \<and> neighbours (cells W 0) = [None, None, Some 2, None]
      \<and> length (neighbours (cells W (grid W ! 0 ! 0))) = 4
      \<and> 0 < capacity (cells W 2)
      \<and> neighbours (cells W 2) ! ((2 + 2) mod 4) = Some (grid W ! 0 ! 0)"
proof -
  let ?hp = "\<lambda>r::nat. GridPoint_init 0 0 0 0 (None :: nat option) None None None None None"
  let ?pts = "Some (map_of [((0, 0), 1), ((1, 0), 0), ((0, 1), 1), ((1, 1), 1 :: int)])"
  let ?occs = "None :: (int \<times> int \<rightharpoonup> nat) option"
  from GridWorld_init_Inr [OF example_points, of ?hp 0]
  obtain W where init: "GridWorld_init ?hp 1 2 2 0 ?pts ?occs = Inr W"
    by blast
  have g: "grid W = [[0, 1], [2, 3]]"
    using GridWorld_init_fields(1) [OF init] by (simp add: grid_refs_def upt_rec)
  have c1: "capacity (cells W 1) = 0"
    using GridWorld_init_point [OF init, of 0 1]
    by (simp add: new_point_def GridPoint_init_def capacity_def)
  have c2: "capacity (cells W 2) = 1"
    using GridWorld_init_point [OF init, of 1 0]
    by (simp add: new_point_def GridPoint_init_def capacity_def)
  have nb0: "neighbours (cells W 0) = [None, None, Some 2, None]"
    using GridWorld_init_neighbours [OF init, of 0 0] c1 c2 by simp
  from GridWorld_init_adjacency [OF init, of 0 0]
  have len: "length (neighbours (cells W (grid W ! 0 ! 0))) = 4"
    and edge: "\<forall>d<4. \<forall>n. neighbours (cells W (grid W ! 0 ! 0)) ! d = Some n \<longrightarrow>
          0 < capacity (cells W n)"
    and sym: "\<forall>d<4. \<forall>n. neighbours (cells W (grid W ! 0 ! 0)) ! d = Some n
              \<and> 0 < capacity (cells W (grid W ! 0 ! 0)) \<longrightarrow>
          neighbours (cells W n) ! ((d + 2) mod 4) = Some (grid W ! 0 ! 0)"
    by (simp_all add: g)
  have c0: "0 < capacity (cells W (grid W ! 0 ! 0))"
    using GridWorld_init_point [OF init, of 0 0]
    by (simp add: g new_point_def GridPoint_init_def capacity_def)
  have n2: "neighbours (cells W (grid W ! 0 ! 0)) ! 2 = Some 2"
    by (simp add: g nb0)
  have e2: "0 < capacity (cells W 2)"
    using edge n2 by (metis numeral_less_iff semiring_norm(76,78))
  have s2: "neighbours (cells W 2) ! ((2 + 2) mod 4) = Some (grid W ! 0 ! 0)"
    using sym n2 c0 by (metis numeral_less_iff semiring_norm(76,78))
  show ?thesis
    using init g c1 nb0 len e2 s2 by blast
qed

section \<open>Action resolution\<close>

lemma same_layout_refl: "same_layout hp hp"
  by (simp add: same_layout_def)

lemma same_layout_trans: "same_layout a b \<Longrightarrow> same_layout b c \<Longrightarrow> same_layout a c"
  by (simp add: same_layout_def)

lemma same_layout_occupants:
  "same_layout hp (hp(c := (hp c)\<lparr>occupants := xs\<rparr>))"
  by (simp add: same_layout_def)

lemma occupy_layout:
  "fst (occupy c ob origin) = c \<or> fst (occupy c ob origin) = c\<lparr>occupants := occupants c @ [ob]\<rparr>"
  by (simp add: occupy_def)

lemma same_layout_occupy:
  "same_layout hp (hp(n := fst (occupy (hp n) ob origin)))"
  using occupy_layout [of "hp n" ob origin]
  by (auto simp: same_layout_def)

lemma vacate_layout:
  assumes "vacate named hp c ob d = Inr (hp', res)"
  shows "same_layout hp hp'"
proof (cases "ob \<in> set (occupants (hp c))")
  case False
  with assms show ?thesis by (auto simp: vacate_def same_layout_refl split: if_splits)
next
  case True
  note present = True
  show ?thesis
  proof (cases d)
    case None
    with assms present show ?thesis
      by (auto simp: vacate_def same_layout_occupants)
  next
    case (Some dir)
    define hp1 where "hp1 = hp(c := (hp c)\<lparr>occupants := remove1 ob (occupants (hp c))\<rparr>)"
    have l1: "same_layout hp hp1" unfolding hp1_def by (rule same_layout_occupants)
    have l2: "same_layout hp1 (hp1(n := fst (occupy (hp1 n) ob origin)))" for n origin
      by (rule same_layout_occupy)
    have l3: "same_layout hp (hp1(n := fst (occupy (hp1 n) ob origin)))" for n origin
      using l1 l2 by (rule same_layout_trans)
    from assms present Some
    have "hp' = hp \<or> (\<exists>n origin. hp' = hp1(n := fst (occupy (hp1 n) ob origin)))"
      unfolding vacate_def Let_def hp1_def [symmetric]
      by (auto split: sum.splits option.splits if_splits)
    then show ?thesis using l3 same_layout_refl [of hp] by auto
  qed
qed

lemma placeOccupant_layout:
  "same_layout hp (hp(c := fst (placeOccupant (hp c) p ob)))"
  by (simp add: same_layout_def placeOccupant_def)

lemma GridWorld_placeOccupant_layout:
  assumes "GridWorld_placeOccupant objs W ob row col isAgent = Inr (W', res)"
  shows "grid W' = grid W \<and> same_layout (cells W) (cells W')"
  using assms placeOccupant_layout
  by (auto simp: GridWorld_placeOccupant_def Let_def split: sum.splits if_splits)

lemma applyAction_layout:
  assumes "applyAction objs W action = Inr (W', res)"
  shows "grid W' = grid W \<and> same_layout (cells W) (cells W')"
  using assms vacate_layout same_layout_refl
  by (auto simp: applyAction_def split: sum.splits if_splits option.splits bool.splits prod.splits)

lemma world_step_layout:
  assumes "world_step objs W c = Inr W'"
  shows "grid W' = grid W \<and> same_layout (cells W) (cells W')"
proof (cases c)
  case (PlaceOccupant ob row col isAgent)
  with assms obtain res where
    "GridWorld_placeOccupant objs W ob row col isAgent = Inr (W', res)"
    by (auto split: sum.splits)
  then show ?thesis by (rule GridWorld_placeOccupant_layout)
next
  case (ApplyAction action)
  with assms obtain res where "applyAction objs W action = Inr (W', res)"
    by (auto split: sum.splits)
  then show ?thesis by (rule applyAction_layout)
qed

lemma world_run_layout:
  "world_run objs W calls = Inr W' \<Longrightarrow> grid W' = grid W \<and> same_layout (cells W) (cells W')"
proof (induction calls arbitrary: W)
  case Nil
  then show ?case by (simp add: same_layout_refl)
next
  case (Cons c cs)
  from Cons.prems obtain W1 where s: "world_step objs W c = Inr W1"
    and r: "world_run objs W1 cs = Inr W'"
    by (auto split: sum.splits)
  from world_step_layout [OF s] Cons.IH [OF r] show ?case
    using same_layout_trans by auto
qed

lemma destination_eq:
  "destination action =
     (act_x action + (if actionDirection action = 1 then 1 else 0)
                   - (if actionDirection action = 3 then 1 else 0),
      act_y action + (if actionDirection action = 2 then 1 else 0)
                   - (if actionDirection action = 0 then 1 else 0))"
  by (simp add: destination_def Let_def)

lemma out_of_bounds_eq:
  assumes "grid W = grid_refs H Wd" and "0 < H"
  shows "out_of_bounds W dx dy = Inr (dx < 0 \<or> dy < 0 \<or> int H \<le> dx \<or> int Wd \<le> dy)"
proof -
  have "grid W = grid_refs H Wd ! 0 # tl (grid_refs H Wd)"
    using assms by (cases "grid_refs H Wd") (simp_all add: grid_refs_def upt_rec)
  moreover have "length (grid_refs H Wd ! 0) = Wd"
    using assms(2) by (rule grid_refs_row_length)
  moreover have "length (grid W) = H" using assms(1) by (simp add: grid_refs_length)
  ultimately show ?thesis
    by (auto simp: out_of_bounds_def split: list.splits)
qed

lemma grid_at_eq:
  assumes g: "grid W = grid_refs H Wd" and y: "0 \<le> y" "nat y < H" and x: "0 \<le> x" "nat x < Wd"
  shows "grid_at W y x = Inr (nat y * Wd + nat x)"
proof -
  have "py_index (grid W) y = Inr (grid W ! nat y)"
    using y g by (intro py_index_in_range) (simp_all add: grid_refs_length)
  moreover have "py_index (grid W ! nat y) x = Inr (grid W ! nat y ! nat x)"
    using x y g by (intro py_index_in_range) (simp_all add: grid_refs_row_length)
  moreover have "grid W ! nat y ! nat x = nat y * Wd + nat x"
    unfolding g using y(2) x(2) by (rule grid_refs_nth)
  ultimately show ?thesis by (simp add: grid_at_def)
qed

lemma vacate_no_neighbour:
  assumes "ob \<in> set (occupants (hp c))" and "py_index (neighbours (hp c)) d = Inr None"
  shows "vacate named hp c ob (Some d) = Inr (hp, Some c)"
  using assms by (simp add: vacate_def)

text \<open>
  Out-of-bounds moves of an agent that is in its cell. In a world built by
  \<^verbatim>\<open>GridWorld.__init__\<close> with any height and width, after any sequence of placements
  and resolved actions, take a registered agent that is an occupant of the cell at its
  position \<open>(obj_x a, obj_y a)\<close> inside the grid, and a Move action it proposes (action
  code 0, any direction value) whose destination is outside the grid. Then
  \<^verbatim>\<open>_applyAction\<close> raises nothing and returns that cell, the heap of cells is
  unchanged, and \<^verbatim>\<open>actionResult\<close> on that observation leaves the agent's believed
  position as it was. Where the bounds test misses the exit (it compares x with the
  number of rows and y with the number of columns), \<^verbatim>\<open>vacate\<close> finds no neighbour
  in that direction and returns the same cell. The instance that follows is an agent at
  (0,0) of a 5 by 5 grid that proposes Move West.
\<close>

lemma out_of_bounds_move_rejected:
  assumes init: "GridWorld_init hp self h w max_time points occs = Inr W0"
    and run: "world_run objs W0 calls = Inr W"
    and px: "0 \<le> obj_x a" "obj_x a < w" and py: "0 \<le> obj_y a" "obj_y a < h"
    and here: "aref \<in> set (occupants (cells W (grid W ! nat (obj_y a) ! nat (obj_x a))))"
    and reg: "agents W (objectID (objs aref)) = Some entry"
    and act: "action = Action_init aref a 0 target d"
    and oob: "\<not> (0 \<le> fst (destination action) \<and> fst (destination action) < w
               \<and> 0 \<le> snd (destination action) \<and> snd (destination action) < h)"
  shows "\<exists>W' a'. applyAction objs W action = Inr (W', Some (grid W ! nat (obj_y a) ! nat (obj_x a)))
          \<and> cells W' = cells W \<and> grid W' = grid W
          \<and> actionResult (cells W') (GridObject_setattr a (Attr_currentAction action))
                (Some (grid W ! nat (obj_y a) ! nat (obj_x a))) = Inr a'
          \<and> obj_x a' = obj_x a \<and> obj_y a' = obj_y a"
proof -
  let ?H = "nat h" and ?Wd = "nat w"
  define row where "row = nat (obj_y a)"
  define col where "col = nat (obj_x a)"
  define c where "c = row * ?Wd + col"
  have r: "row < ?H" and cl: "col < ?Wd" using px py by (simp_all add: row_def col_def)
  have irow: "int row = obj_y a" and icol: "int col = obj_x a"
    using px py by (simp_all add: row_def col_def)
  have g0: "grid W0 = grid_refs ?H ?Wd" using init by (rule GridWorld_init_fields)
  from world_run_layout [OF run]
  have gW: "grid W = grid_refs ?H ?Wd" and lay: "same_layout (cells W0) (cells W)"
    using g0 by simp_all
  have ref: "grid W ! row ! col = c"
    unfolding gW c_def using r cl by (rule grid_refs_nth)
  have Hpos: "0 < ?H" using r by simp
  \<comment> \<open>the cell of the agent\<close>
  have cell0: "gp_x (cells W0 c) = int col" "gp_y (cells W0 c) = int row"
    unfolding c_def by (subst GridWorld_init_cell [OF init r cl], simp)+
  have xy: "gp_x (cells W c) = obj_x a" "gp_y (cells W c) = obj_y a"
    using lay cell0 irow icol by (simp_all add: same_layout_def)
  have nbs: "neighbours (cells W c) = neighbours (cells W0 c)"
    using lay by (simp add: same_layout_def)
  note nbs0 = GridWorld_init_neighbours [OF init r cl, folded c_def]
  have nb_len: "length (neighbours (cells W c)) = 4"
    unfolding nbs nbs0 by simp
  have east: "neighbours (cells W c) ! 1 = None" if "col = ?Wd - 1"
    unfolding nbs nbs0 using that by simp
  have south: "neighbours (cells W c) ! 2 = None" if "row = ?H - 1"
    unfolding nbs nbs0 using that by simp
  \<comment> \<open>the action\<close>
  have code: "actionCode action = 0" and ag: "agent action = aref"
    and ax: "act_x action = obj_x a" and ay: "act_y action = obj_y a"
    and dir: "actionDirection action = d"
    by (simp_all add: act Action_init_def)
  define dx where "dx = fst (destination action)"
  define dy where "dy = snd (destination action)"
  have dx: "dx = obj_x a + (if d = 1 then 1 else 0) - (if d = 3 then 1 else 0)"
    and dy: "dy = obj_y a + (if d = 2 then 1 else 0) - (if d = 0 then 1 else 0)"
    by (simp_all add: dx_def dy_def destination_eq ax ay dir)
  have at_cell: "grid_at W (act_y action) (act_x action) = Inr c"
    unfolding ax ay c_def row_def col_def
    using gW py(1) r [unfolded row_def] px(1) cl [unfolded col_def] by (rule grid_at_eq)
  have here': "aref \<in> set (occupants (cells W c))"
    using here ref by (simp add: row_def col_def)
  have bounds: "out_of_bounds W dx dy = Inr (dx < 0 \<or> dy < 0 \<or> int ?H \<le> dx \<or> int ?Wd \<le> dy)"
    using gW Hpos by (rule out_of_bounds_eq)
  have applied: "\<exists>W'. applyAction objs W action = Inr (W', Some c)
      \<and> cells W' = cells W \<and> grid W' = grid W"
  proof (cases "dx < 0 \<or> dy < 0 \<or> int ?H \<le> dx \<or> int ?Wd \<le> dy")
    case True
    then have "applyAction objs W action = Inr (W, Some c)"
      using bounds at_cell code by (simp add: applyAction_def dx_def dy_def)
    then show ?thesis by simp
  next
    case False
    from False oob have far: "w \<le> dx \<or> h \<le> dy"
      by (auto simp: dx_def dy_def)
    have none: "py_index (neighbours (cells W c)) d = Inr None"
    proof -
      from far show ?thesis
      proof
        assume "w \<le> dx"
        with px dx have d1: "d = 1" and last: "obj_x a = w - 1"
          by (auto split: if_splits)
        from last have "col = ?Wd - 1" using px by (simp add: col_def nat_diff_distrib)
        from east [OF this] show ?thesis
          unfolding d1 using nb_len by (simp add: py_index_def)
      next
        assume "h \<le> dy"
        with py dy have d2: "d = 2" and last: "obj_y a = h - 1"
          by (auto split: if_splits)
        from last have "row = ?H - 1" using py by (simp add: row_def nat_diff_distrib)
        from south [OF this] show ?thesis
          unfolding d2 using nb_len by (simp add: py_index_def)
      qed
    qed
    have "vacate (\<lambda>r. True) (cells W) c aref (Some d) = Inr (cells W, Some c)"
      using here' none by (rule vacate_no_neighbour)
    then have "applyAction objs W action =
        Inr (W\<lparr>cells := cells W,
               agents := (agents W)(objectID (objs aref) \<mapsto>
                  (gp_x (cells W c), gp_y (cells W c), snd (snd entry)))\<rparr>, Some c)"
      using False bounds at_cell code reg ag dir
      by (simp add: applyAction_def dx_def dy_def)
    then show ?thesis by simp
  qed
  then obtain W' where W': "applyAction objs W action = Inr (W', Some c)"
    and cW: "cells W' = cells W" and gW': "grid W' = grid W" by blast
  define a' where "a' = GridAgent_setattr (GridAgent_setattr
      (GridObject_setattr a (Attr_currentAction action)) (Attr_x (gp_x (cells W c))))
      (Attr_y (gp_y (cells W c)))"
  have res: "actionResult (cells W') (GridObject_setattr a (Attr_currentAction action)) (Some c) = Inr a'"
    using code by (simp add: actionResult_def GridObject_setattr_def cW a'_def)
  have pos: "obj_x a' = obj_x a" "obj_y a' = obj_y a"
    using xy by (simp_all add: a'_def GridAgent_setattr_def GridObject_setattr_def)
  have "grid W ! nat (obj_y a) ! nat (obj_x a) = c"
    using ref by (simp add: row_def col_def)
  then show ?thesis using W' cW gW' res pos by auto
qed

lemma out_of_bounds_move_rejected_example:
  "\<exists>W0 W W' a'.
      GridWorld_init (\<lambda>r. GridPoint_init 0 0 0 0 (None :: nat option) None None None None None)
        2 5 5 0 None (None :: (int \<times> int \<rightharpoonup> nat) option) = Inr W0
    \<and> world_run (\<lambda>r. GridAgent_init ''id7'' 7 ''agent1'' None (Some 2) 0 0) W0
          [PlaceOccupant 7 0 0 True] = Inr W
    \<and> destination (Action_init 7 (GridAgent_init ''id7'' 7 ''agent1'' None (Some 2) 0 0) 0 None 3)
          = (- 1, 0)
    \<and> applyAction (\<lambda>r. GridAgent_init ''id7'' 7 ''agent1'' None (Some 2) 0 0) W
          (Action_init 7 (GridAgent_init ''id7'' 7 ''agent1'' None (Some 2) 0 0) 0 None 3)
          = Inr (W', Some 0)
    \<and> cells W' = cells W
    \<and> gp_x (cells W' 0) = 0 \<and> gp_y (cells W' 0) = 0 \<and> occupants (cells W' 0) = [7]
    \<and> actionResult (cells W')
          (GridObject_setattr (GridAgent_init ''id7'' 7 ''agent1'' None (Some 2) 0 0)
             (Attr_currentAction
                (Action_init 7 (GridAgent_init ''id7'' 7 ''agent1'' None (Some 2) 0 0) 0 None 3)))
          (Some 0) = Inr a'
    \<and> obj_x a' = 0 \<and> obj_y a' = 0"
proof -
  let ?hp = "\<lambda>r::nat. GridPoint_init 0 0 0 0 (None :: nat option) None None None None None"
  let ?occs = "None :: (int \<times> int \<rightharpoonup> nat) option"
  let ?a = "GridAgent_init ''id7'' 7 ''agent1'' None (Some 2) 0 0"
  let ?objs = "\<lambda>r::nat. ?a"
  let ?act = "Action_init 7 ?a 0 None 3"
  have a_x: "obj_x ?a = 0" and a_y: "obj_y ?a = 0" and a_id: "objectID ?a = ''id7''"
    by (simp_all add: GridAgent_init_def GridObject_init_def GridAgent_setattr_def)
  from GridWorld_init_default_points [of ?hp 2 5 5 0 ?occs]
  obtain W0 where init: "GridWorld_init ?hp 2 5 5 0 None ?occs = Inr W0" by blast
  have g0: "grid W0 = grid_refs 5 5"
    using GridWorld_init_fields(1) [OF init] by simp
  have wid: "world_id W0 = 2" using init by (rule GridWorld_init_fields)
  have m0: "maxOccupants (cells W0 0) = 1"
    using GridWorld_init_point [OF init, of 0 0]
    by (simp add: new_point_def GridPoint_init_def)
  have cell0: "gp_x (cells W0 0) = 0" "gp_y (cells W0 0) = 0" "occupants (cells W0 0) = []"
      "parent (cells W0 0) = 2"
    by (subst GridWorld_init_cell [OF init, of 0 0, simplified], simp)+
  define W where "W = W0\<lparr>agents := (agents W0)(''id7'' \<mapsto> (0, 0, 7)),
      cells := (cells W0)(0 := (cells W0 0)\<lparr>occupants := [7]\<rparr>)\<rparr>"
  have i0: "py_index (grid_refs 5 5) 0 = Inr (grid_refs 5 5 ! 0)"
    by (simp add: py_index_def grid_refs_length)
  have i1: "py_index (grid_refs 5 5 ! 0) 0 = Inr 0"
    by (simp add: py_index_def grid_refs_def)
  have placed: "GridWorld_placeOccupant ?objs W0 7 0 0 True = Inr (W, True)"
    using i0 i1 wid m0 cell0 a_id
    by (simp add: GridWorld_placeOccupant_def Let_def g0 placeOccupant_def occupied_def W_def)
  then have run: "world_run ?objs W0 [PlaceOccupant 7 0 0 True] = Inr W" by simp
  have gW: "grid W ! 0 ! 0 = 0" by (simp add: W_def g0 grid_refs_def)
  have here: "7 \<in> set (occupants (cells W (grid W ! nat (obj_y ?a) ! nat (obj_x ?a))))"
    unfolding a_x a_y using gW by (simp add: W_def)
  have reg: "agents W (objectID (?objs 7)) = Some (0, 0, 7)"
    by (simp add: W_def GridAgent_init_def GridObject_init_def GridAgent_setattr_def)
  have dest: "destination ?act = (- 1, 0)"
    by (simp add: destination_eq Action_init_def a_x a_y)
  from out_of_bounds_move_rejected [OF init run _ _ _ _ here reg refl, of None 3]
  obtain W' a' where
    ap: "applyAction ?objs W ?act = Inr (W', Some (grid W ! nat (obj_y ?a) ! nat (obj_x ?a)))"
    and cW: "cells W' = cells W"
    and res: "actionResult (cells W') (GridObject_setattr ?a (Attr_currentAction ?act))
                (Some (grid W ! nat (obj_y ?a) ! nat (obj_x ?a))) = Inr a'"
    and pos: "obj_x a' = obj_x ?a" "obj_y a' = obj_y ?a"
    unfolding dest a_x a_y by auto
  have c0: "gp_x (cells W' 0) = 0" "gp_y (cells W' 0) = 0" "occupants (cells W' 0) = [7]"
    unfolding cW using cell0 by (simp_all add: W_def)
  show ?thesis
    using init run dest ap cW c0 res pos gW unfolding a_x a_y by auto
qed

text \<open>
  C5 (the code departs from the claim). On a grid of height 2 and width 1, agents 7 and
  8 are both placed at row 0, column 0 as agents: the cell has capacity 1, so the
  second placement is refused, and agent 8 is in the roster at (0,0) without being an
  occupant of the cell. Its Move East has the destination (1,0), outside the grid. The
  bounds test compares the destination's x with the number of rows (2) and its y with
  the number of columns (1), does not recognise the exit, and \<^verbatim>\<open>_applyAction\<close>
  goes on to \<^verbatim>\<open>vacate\<close>, which returns \<^verbatim>\<open>None\<close>: reading \<^verbatim>\<open>newSquare.x\<close>
  raises \<^verbatim>\<open>AttributeError\<close> where the claim has the current cell returned.
\<close>

theorem unplaced_agent_on_narrow_grid:
  "\<exists>W0 W.
      GridWorld_init (\<lambda>r. GridPoint_init 0 0 0 0 (None :: nat option) None None None None None)
        2 2 1 0 None (None :: (int \<times> int \<rightharpoonup> nat) option) = Inr W0
    \<and> world_run (\<lambda>r. GridAgent_init (if r = 7 then ''id7'' else ''id8'') r ''agent'' None (Some 2) 0 0)
          W0 [PlaceOccupant 7 0 0 True, PlaceOccupant 8 0 0 True] = Inr W
    \<and> agents W ''id8'' = Some (0, 0, 8)
    \<and> destination (Action_init 8 (GridAgent_init ''id8'' 8 ''agent'' None (Some 2) 0 0) 0 None 1)
          = (1, 0)
    \<and> applyAction (\<lambda>r. GridAgent_init (if r = 7 then ''id7'' else ''id8'') r ''agent'' None (Some 2) 0 0)
          W (Action_init 8 (GridAgent_init ''id8'' 8 ''agent'' None (Some 2) 0 0) 0 None 1)
          = Inl AttributeError"
proof -
  let ?hp = "\<lambda>r::nat. GridPoint_init 0 0 0 0 (None :: nat option) None None None None None"
  let ?occs = "None :: (int \<times> int \<rightharpoonup> nat) option"
  let ?objs = "\<lambda>r::nat. GridAgent_init (if r = 7 then ''id7'' else ''id8'') r ''agent'' None (Some 2) 0 0"
  let ?a = "GridAgent_init ''id8'' 8 ''agent'' None (Some 2) 0 0"
  let ?act = "Action_init 8 ?a 0 None 1"
  have ids: "objectID (?objs 7) = ''id7''" "objectID (?objs 8) = ''id8''"
    by (simp_all add: GridAgent_init_def GridObject_init_def GridAgent_setattr_def)
  have a_x: "obj_x ?a = 0" and a_y: "obj_y ?a = 0"
    by (simp_all add: GridAgent_init_def GridObject_init_def GridAgent_setattr_def)
  from GridWorld_init_default_points [of ?hp 2 2 1 0 ?occs]
  obtain W0 where init: "GridWorld_init ?hp 2 2 1 0 None ?occs = Inr W0" by blast
  have g0: "grid W0 = [[0], [1]]"
    using GridWorld_init_fields(1) [OF init] by (simp add: grid_refs_def upt_rec)
  have wid: "world_id W0 = 2" using init by (rule GridWorld_init_fields)
  have m0: "maxOccupants (cells W0 0) = 1"
    using GridWorld_init_point [OF init, of 0 0]
    by (simp add: new_point_def GridPoint_init_def)
  have cell0: "occupants (cells W0 0) = []" "parent (cells W0 0) = 2"
    by (subst GridWorld_init_cell [OF init, of 0 0, simplified], simp)+
  define W1 where "W1 = W0\<lparr>agents := (agents W0)(''id7'' \<mapsto> (0, 0, 7)),
      cells := (cells W0)(0 := (cells W0 0)\<lparr>occupants := [7]\<rparr>)\<rparr>"
  define W where "W = W1\<lparr>agents := (agents W1)(''id8'' \<mapsto> (0, 0, 8))\<rparr>"
  have p1: "GridWorld_placeOccupant ?objs W0 7 0 0 True = Inr (W1, True)"
    using wid m0 cell0 ids
    by (simp add: GridWorld_placeOccupant_def Let_def g0 py_index_def placeOccupant_def
        occupied_def W1_def)
  have full: "placeOccupant (cells W1 0) 2 8 = (cells W1 0, False)"
    using m0 by (simp add: placeOccupant_def occupied_def W1_def)
  have "(cells W1)(0 := cells W1 0) = cells W1" by (rule fun_upd_triv)
  then have p2: "GridWorld_placeOccupant ?objs W1 8 0 0 True = Inr (W, False)"
    using wid ids full
    by (simp add: GridWorld_placeOccupant_def Let_def py_index_def W_def)
       (simp add: W1_def g0)
  have run: "world_run ?objs W0 [PlaceOccupant 7 0 0 True, PlaceOccupant 8 0 0 True] = Inr W"
    using p1 p2 by simp
  have reg: "agents W ''id8'' = Some (0, 0, 8)" by (simp add: W_def)
  have dest: "destination ?act = (1, 0)"
    by (simp add: destination_eq Action_init_def a_x a_y)
  have gW: "grid W = [[0], [1]]" by (simp add: W_def W1_def g0)
  have oob: "out_of_bounds W 1 0 = Inr False"
    by (simp add: out_of_bounds_def gW)
  have at0: "grid_at W 0 0 = Inr 0"
    by (simp add: grid_at_def py_index_def gW)
  have vac: "vacate (\<lambda>r. True) (cells W) 0 8 (Some 1) = Inr (cells W, None)"
    by (simp add: vacate_def W_def W1_def)
  have "applyAction ?objs W ?act = Inl AttributeError"
    using oob at0 vac dest by (simp add: applyAction_def Action_init_def a_x a_y)
  then show ?thesis using init run reg dest by blast
qed

end
